theory Spec2Isabelle
  imports Main "HOL-Library.Word" "HOL-Library.Sublist" "HOL-Library.AList"
begin

unbundle bit_operations_syntax

section \<open>Buffers, strings and errors\<close>

text \<open>
  A Node.js \<open>Buffer\<close> is a sequence of octets. A JavaScript \<open>Error\<close> is modelled by its
  message, the only part of it the program reads (\<open>error.message\<close>).
\<close>

type_synonym byte = "8 word"
type_synonym buffer = "byte list"

datatype error = Error string

text \<open>
  \<open>buffer.toString('ascii', start, end)\<close>. Node.js decodes \<open>'ascii'\<close> by clearing the
  highest bit of every byte and reading the result as latin1 (Node.js documentation,
  Buffers and character encodings: "When decoding a Buffer into a string, using this
  encoding will additionally unset the highest bit of each byte before decoding as
  'latin1'"). Indices beyond the buffer are clamped, which \<open>take\<close> and \<open>drop\<close> do too.
\<close>

definition asciiChar :: "byte \<Rightarrow> char" where
  "asciiChar b = char_of (unat (b AND 0x7F))"

definition toString_ascii :: "buffer \<Rightarrow> nat \<Rightarrow> nat \<Rightarrow> string" where
  "toString_ascii buffer start end = map asciiChar (take (end - start) (drop start buffer))"

text \<open>\<open>String.prototype.startsWith\<close>.\<close>

definition startsWith :: "string \<Rightarrow> string \<Rightarrow> bool" where
  "startsWith s p = prefix p s"

text \<open>The four octets of the file-header magic \<open>%PDF\<close>.\<close>

definition pdfMagic :: buffer where
  "pdfMagic = [0x25, 0x50, 0x44, 0x46]"

section \<open>PdfSigner.isPdfValid\<close>

definition isPdfValid :: "buffer \<Rightarrow> bool" where
  "isPdfValid buffer =
     (if length buffer < 4 then False
      else let header = toString_ascii buffer 0 4 in
        if \<not> startsWith header ''%PDF'' then False
        else True)"

section \<open>JavaScript values and objects\<close>

text \<open>
  The values that occur in the option objects and in the certificate information. An object
  literal is an association list in insertion order; reading a missing property gives
  \<open>undefined\<close>.
\<close>

datatype jsval =
    JUndefined
  | JNull
  | JBool bool
  | JNum int
  | JString string
  | JDate nat

type_synonym jsobject = "(string \<times> jsval) list"

definition getProp :: "jsobject \<Rightarrow> string \<Rightarrow> jsval" where
  "getProp obj k = (case map_of obj k of None \<Rightarrow> JUndefined | Some v \<Rightarrow> v)"

text \<open>Truthiness, and the operator \<open>a || b\<close>: \<open>a\<close> when it is truthy, \<open>b\<close> otherwise.\<close>

fun truthy :: "jsval \<Rightarrow> bool" where
  "truthy JUndefined = False"
| "truthy JNull = False"
| "truthy (JBool b) = b"
| "truthy (JNum n) = (n \<noteq> 0)"
| "truthy (JString s) = (s \<noteq> [])"
| "truthy (JDate t) = True"

definition orElse :: "jsval \<Rightarrow> jsval \<Rightarrow> jsval" where
  "orElse a b = (if truthy a then a else b)"

text \<open>A destructuring default \<open>{ k = d } = obj\<close> applies only when the property is \<open>undefined\<close>.\<close>

definition destructureDefault :: "jsobject \<Rightarrow> string \<Rightarrow> jsval \<Rightarrow> jsval" where
  "destructureDefault obj k d = (case getProp obj k of JUndefined \<Rightarrow> d | v \<Rightarrow> v)"

section \<open>The environment: file system, console and the third-party packages\<close>

text \<open>
  The calls of \<open>fs\<close> the program makes. \<open>statSync_mtime p\<close> is \<open>fs.statSync(p).mtime\<close>,
  the only field of the result that is read.
\<close>

record fs =
  readFileSync :: "string \<Rightarrow> error + buffer"
  statSync_mtime :: "string \<Rightarrow> error + nat"
  existsSync :: "string \<Rightarrow> bool"
  writeFileSync :: "string \<Rightarrow> buffer \<Rightarrow> error + unit"

text \<open>The object passed to \<open>pdflibAddPlaceholder\<close>, without its \<open>pdfDoc\<close>.\<close>

record placeholderArgs =
  reason :: jsval
  location :: jsval
  contactInfo :: jsval
  name :: jsval
  signatureLength :: nat

text \<open>
  The packages \<open>pdf-lib\<close>, \<open>@signpdf/placeholder-pdf-lib\<close>, \<open>@signpdf/signpdf\<close> and
  \<open>@signpdf/signer-p12\<close> are not part of the repository; the calls the program makes
  into them are parameters. \<open>PDFDocument_load\<close> is \<open>PDFDocument.load(b, {updateMetadata: false})\<close>,
  \<open>PDFDocument_save\<close> is \<open>pdfDoc.save({useObjectStreams: false})\<close>, \<open>pdflibAddPlaceholder\<close>
  returns the document it has changed in place, \<open>P12Signer_new\<close> is
  \<open>new P12Signer(cert, {passphrase})\<close> and \<open>SignPdf_sign\<close> is
  \<open>signPdfLib.sign(Buffer.from(bytes), p12Signer)\<close>. Each may throw.
\<close>

record ('doc, 'signer) libs =
  PDFDocument_load :: "buffer \<Rightarrow> error + 'doc"
  pdflibAddPlaceholder :: "'doc \<Rightarrow> placeholderArgs \<Rightarrow> error + 'doc"
  PDFDocument_save :: "'doc \<Rightarrow> error + buffer"
  P12Signer_new :: "buffer option \<Rightarrow> string \<Rightarrow> error + 'signer"
  SignPdf_sign :: "buffer \<Rightarrow> 'signer \<Rightarrow> error + buffer"

text \<open>
  Everything a run does besides returning: each call out of the program, in order. The
  calls into the file system and the console are \<open>sysCall\<close>s; a run of the signer also
  calls the packages.
\<close>

datatype sysCall =
    FsRead string
  | FsStat string
  | FsExists string
  | FsWrite string buffer
  | ConsoleLog string
  | ConsoleError string

datatype ('doc, 'signer) event =
    Sys sysCall
  | PdfLoad buffer
  | AddPlaceholder 'doc placeholderArgs
  | PdfSave 'doc
  | NewP12Signer "buffer option" string
  | Sign buffer 'signer

text \<open>
  A computation returns the calls it made and either the error it threw or its value.
  \<open>call\<close> is one call out of the program, \<open>thenDo\<close> runs the rest unless the first part
  threw, and \<open>rethrow\<close> is \<open>catch (error) { throw new Error(prefix + error.message) }\<close>.
\<close>

type_synonym ('e, 'a) run = "'e list \<times> (error + 'a)"

definition call :: "'e \<Rightarrow> error + 'a \<Rightarrow> ('e, 'a) run" where
  "call e r = ([e], r)"

definition thenDo :: "('e, 'a) run \<Rightarrow> ('a \<Rightarrow> ('e, 'b) run) \<Rightarrow> ('e, 'b) run" where
  "thenDo m f =
     (case m of
        (evs, Inl e) \<Rightarrow> (evs, Inl e)
      | (evs, Inr a) \<Rightarrow> (case f a of (evs', r) \<Rightarrow> (evs @ evs', r)))"

definition rethrow :: "string \<Rightarrow> ('e, 'a) run \<Rightarrow> ('e, 'a) run" where
  "rethrow pfx m =
     (case m of
        (evs, Inl (Error msg)) \<Rightarrow> (evs, Inl (Error (pfx @ msg)))
      | (evs, Inr a) \<Rightarrow> (evs, Inr a))"

section \<open>PdfSigner: construction and certificate information\<close>

text \<open>
  The fields of the object. \<open>certificate\<close> and \<open>certificateInfo\<close> are \<open>null\<close> until the
  certificate is loaded. The glyph that starts the console messages of the source is left
  out of the modelled messages.
\<close>

record PdfSigner =
  certPath :: string
  passphrase :: string
  certificate :: "buffer option"
  certificateInfo :: "jsobject option"

definition parseCertificateInfo :: "fs \<Rightarrow> PdfSigner \<Rightarrow> sysCall list \<times> PdfSigner" where
  "parseCertificateInfo env this =
     ([FsStat (certPath this)],
      (case statSync_mtime env (certPath this) of
         Inr mtime \<Rightarrow>
           this\<lparr>certificateInfo := Some
             [(''loaded'', JBool True),
              (''path'', JString (certPath this)),
              (''timestamp'', JDate mtime),
              (''algorithm'', JString ''PKCS#7/CMS (Detached)''),
              (''hasPrivateKey'', JBool True)]\<rparr>
       | Inl (Error msg) \<Rightarrow>
           this\<lparr>certificateInfo := Some
             [(''loaded'', JBool False), (''error'', JString msg)]\<rparr>))"

definition loadCertificate :: "fs \<Rightarrow> PdfSigner \<Rightarrow> (sysCall, PdfSigner) run" where
  "loadCertificate env this =
     rethrow ''Failed to load certificate: ''
       (thenDo (call (FsRead (certPath this)) (readFileSync env (certPath this)))
          (\<lambda>certBuffer.
             case parseCertificateInfo env (this\<lparr>certificate := Some certBuffer\<rparr>) of
               (evs, this') \<Rightarrow>
                 (evs @ [ConsoleLog ''Certificate loaded successfully''], Inr this')))"

definition PdfSigner_constructor :: "fs \<Rightarrow> string \<Rightarrow> string \<Rightarrow> (sysCall, PdfSigner) run" where
  "PdfSigner_constructor env certPath' passphrase' =
     loadCertificate env
       \<lparr>certPath = certPath', passphrase = passphrase',
        certificate = None, certificateInfo = None\<rparr>"

text \<open>\<open>{...this.certificateInfo, message: '...'}\<close>; spreading \<open>null\<close> adds nothing.\<close>

definition getCertificateInfo :: "PdfSigner \<Rightarrow> jsobject" where
  "getCertificateInfo this =
     AList.update ''message'' (JString ''Certificate is loaded and ready for signing'')
       (case certificateInfo this of None \<Rightarrow> [] | Some info \<Rightarrow> info)"

section \<open>PdfSigner.signPdfBuffer and PdfSigner.signPdf\<close>

text \<open>
  \<open>signatureOptions\<close> is \<open>None\<close> when the argument is omitted (or \<open>undefined\<close>); the
  parameter default \<open>{}\<close> applies then.
\<close>

definition signPdfBuffer ::
  "('doc, 'signer) libs \<Rightarrow> PdfSigner \<Rightarrow> buffer \<Rightarrow> jsobject option
     \<Rightarrow> (('doc, 'signer) event, buffer) run" where
  "signPdfBuffer L this pdfBuffer signatureOptions' =
     (let signatureOptions = (case signatureOptions' of None \<Rightarrow> [] | Some obj \<Rightarrow> obj) in
      rethrow ''Failed to sign PDF buffer: ''
        (if \<not> isPdfValid pdfBuffer then ([], Inl (Error ''Invalid or corrupted PDF file''))
         else
           thenDo (call (PdfLoad pdfBuffer) (PDFDocument_load L pdfBuffer)) (\<lambda>pdfDoc.
           let args = \<lparr>reason = orElse (getProp signatureOptions ''reason'')
                                   (JString ''Document signed by server''),
                       location = orElse (getProp signatureOptions ''location'')
                                   (JString ''Server''),
                       contactInfo = orElse (getProp signatureOptions ''contact'')
                                   (JString ''N/A''),
                       name = JString ''PDF Signing Server'',
                       signatureLength = 8192\<rparr> in
           thenDo (call (AddPlaceholder pdfDoc args) (pdflibAddPlaceholder L pdfDoc args))
             (\<lambda>pdfDoc.
           thenDo (call (PdfSave pdfDoc) (PDFDocument_save L pdfDoc))
             (\<lambda>pdfBytesWithPlaceholder.
           thenDo (call (NewP12Signer (certificate this) (passphrase this))
                     (P12Signer_new L (certificate this) (passphrase this)))
             (\<lambda>p12Signer.
           thenDo (call (Sign pdfBytesWithPlaceholder p12Signer)
                     (SignPdf_sign L pdfBytesWithPlaceholder p12Signer))
             (\<lambda>signedPdfBytes.
           ([Sys (ConsoleLog ''PDF buffer signed successfully'')], Inr signedPdfBytes))))))))"

definition signPdf ::
  "('doc, 'signer) libs \<Rightarrow> fs \<Rightarrow> PdfSigner \<Rightarrow> string \<Rightarrow> string \<Rightarrow> jsobject option
     \<Rightarrow> (('doc, 'signer) event, string) run" where
  "signPdf L env this inputPath outputPath signatureOptions =
     rethrow ''Failed to sign PDF: ''
       (thenDo (call (Sys (FsRead inputPath)) (readFileSync env inputPath)) (\<lambda>pdfBuffer.
        if \<not> isPdfValid pdfBuffer then ([], Inl (Error ''Invalid or corrupted PDF file''))
        else
          thenDo (signPdfBuffer L this pdfBuffer signatureOptions) (\<lambda>signedPdfBytes.
          thenDo (call (Sys (FsWrite outputPath signedPdfBytes))
                    (writeFileSync env outputPath signedPdfBytes)) (\<lambda>_.
          ([Sys (ConsoleLog (''PDF signed successfully: '' @ outputPath))], Inr outputPath)))))"

section \<open>Server start-up and the option objects of the routes\<close>

text \<open>
  \<open>initializeSigner\<close> of the server module. \<open>certPath'\<close> is the value of
  \<open>path.join(certDir, 'signing-cert.p12')\<close> and \<open>CERT_PASSPHRASE\<close> the environment
  variable, \<open>None\<close> when unset. \<open>process.exit(1)\<close> ends the run with that exit code
  (\<open>Inl 1\<close>); nothing after it is executed.
\<close>

definition initializeSigner ::
  "fs \<Rightarrow> string \<Rightarrow> string option \<Rightarrow> sysCall list \<times> (nat + PdfSigner)" where
  "initializeSigner env certPath' CERT_PASSPHRASE =
     (let passphrase' =
            (case CERT_PASSPHRASE of
               None \<Rightarrow> ''password''
             | Some s \<Rightarrow> if s \<noteq> [] then s else ''password'') in
      if \<not> existsSync env certPath' then
        ([FsExists certPath',
          ConsoleError (''Certificate not found at '' @ certPath'),
          ConsoleError ''Please generate a certificate using: npm run generate-cert''],
         Inl 1)
      else
        (case PdfSigner_constructor env certPath' passphrase' of
           (evs, Inr pdfSigner) \<Rightarrow>
             (FsExists certPath' # evs @ [ConsoleLog ''PDF Signer initialized successfully''],
              Inr pdfSigner)
         | (evs, Inl (Error msg)) \<Rightarrow>
             (FsExists certPath' # evs
                @ [ConsoleError (''Failed to initialize PDF Signer: '' @ msg)],
              Inl 1)))"

text \<open>
  The last statement of the server module: \<open>await initializeSigner()\<close>, then
  \<open>app.listen\<close>. The server accepts requests only in the state \<open>Listening\<close>.
\<close>

datatype server = Exited nat | Listening PdfSigner

definition startServer :: "fs \<Rightarrow> string \<Rightarrow> string option \<Rightarrow> sysCall list \<times> server" where
  "startServer env certPath' CERT_PASSPHRASE =
     (case initializeSigner env certPath' CERT_PASSPHRASE of
        (evs, Inl code) \<Rightarrow> (evs, Exited code)
      | (evs, Inr pdfSigner) \<Rightarrow> (evs, Listening pdfSigner))"

text \<open>
  The option object the route \<open>POST /api/sign\<close> builds from \<open>req.query\<close> and passes to
  \<open>signPdf\<close>.
\<close>

definition signRouteOptions :: "jsobject \<Rightarrow> jsobject" where
  "signRouteOptions query =
     [(''reason'', destructureDefault query ''reason'' (JString ''Document signed by server'')),
      (''location'', destructureDefault query ''location'' (JString '''')),
      (''contact'', destructureDefault query ''contact'' (JString ''''))]"

section \<open>Test doubles and sample inputs\<close>

text \<open>
  A stand-in for the third-party packages on which the model can be run: documents and
  signers are buffers, every call succeeds and returns its argument. Two file systems: one
  that holds a single file, one in which every read is refused. A signer as the constructor
  leaves it, and the octets of \<open>%PDF\<close> with the highest bit of each set.
\<close>

definition echoLibs :: "(buffer, buffer option) libs" where
  "echoLibs =
     \<lparr>PDFDocument_load = (\<lambda>b. Inr b),
      pdflibAddPlaceholder = (\<lambda>d a. Inr d),
      PDFDocument_save = (\<lambda>d. Inr d),
      P12Signer_new = (\<lambda>c p. Inr c),
      SignPdf_sign = (\<lambda>b s. Inr b)\<rparr>"

definition testFs :: "string \<Rightarrow> buffer \<Rightarrow> nat \<Rightarrow> fs" where
  "testFs p content mtime =
     \<lparr>readFileSync = (\<lambda>q. if q = p then Inr content else Inl (Error ''ENOENT'')),
      statSync_mtime = (\<lambda>q. if q = p then Inr mtime else Inl (Error ''ENOENT'')),
      existsSync = (\<lambda>q. q = p),
      writeFileSync = (\<lambda>q b. Inr ())\<rparr>"

definition unreadableFs :: fs where
  "unreadableFs =
     \<lparr>readFileSync = (\<lambda>q. Inl (Error ''EACCES: permission denied'')),
      statSync_mtime = (\<lambda>q. Inr 0),
      existsSync = (\<lambda>q. True),
      writeFileSync = (\<lambda>q b. Inr ())\<rparr>"

definition highBitHeader :: buffer where
  "highBitHeader = [0xA5, 0xD0, 0xC4, 0xC6]"

definition testSigner :: PdfSigner where
  "testSigner =
     \<lparr>certPath = ''certs/signing-cert.p12'', passphrase = ''password'',
      certificate = Some [0x30, 0x82], certificateInfo = None\<rparr>"

section \<open>Observations on a run\<close>

text \<open>
  The argument objects of the calls of \<open>pdflibAddPlaceholder\<close> in a run: the metadata
  the signature field is created with. The calls into the file system and the console, and
  among them the paths read with \<open>readFileSync\<close>.
\<close>

definition placeholderCalls :: "('doc, 'signer) event list \<Rightarrow> placeholderArgs list" where
  "placeholderCalls evs =
     concat (map (\<lambda>e. case e of AddPlaceholder d a \<Rightarrow> [a] | _ \<Rightarrow> []) evs)"

definition sysCalls :: "('doc, 'signer) event list \<Rightarrow> sysCall list" where
  "sysCalls evs = concat (map (\<lambda>e. case e of Sys c \<Rightarrow> [c] | _ \<Rightarrow> []) evs)"

definition fileReads :: "sysCall list \<Rightarrow> string list" where
  "fileReads cs = concat (map (\<lambda>c. case c of FsRead p \<Rightarrow> [p] | _ \<Rightarrow> []) cs)"

section \<open>The placeholder preparer and the detached signer\<close>

text \<open>
  The repository calls the preparer and the signer, it does not contain them: the bytes
  between \<open>pdfDoc.save\<close> and the returned buffer are computed inside
  \<open>@signpdf/signpdf\<close> and \<open>@signpdf/signer-p12\<close>, the placeholder inside
  \<open>@signpdf/placeholder-pdf-lib\<close> and \<open>pdf-lib\<close>. The definitions of this section
  follow the specification's description of the two components (its sections 3, 4.1, 4.2
  and 7) instead.
\<close>

text \<open>
  Modelled from the spec: the error taxonomy of section 7, missing from the source, whose
  errors are plain \<open>Error\<close> objects told apart by their message only.
\<close>

datatype failure = InvalidDocument | PlaceholderOverflow | SigningFailure | IdentityLoadFailure

definition failureName :: "failure \<Rightarrow> string" where
  "failureName f =
     (case f of
        InvalidDocument \<Rightarrow> ''InvalidDocument''
      | PlaceholderOverflow \<Rightarrow> ''PlaceholderOverflow''
      | SigningFailure \<Rightarrow> ''SigningFailure''
      | IdentityLoadFailure \<Rightarrow> ''IdentityLoadFailure'')"

text \<open>\<open>Buffer.from(s)\<close> for a string of ASCII characters.\<close>

definition ascii :: "string \<Rightarrow> buffer" where
  "ascii s = map (\<lambda>c. of_nat (of_char c)) s"

text \<open>\<open>indexOf\<close>: the position of the first occurrence of a pattern.\<close>

fun indexOf :: "'a list \<Rightarrow> 'a list \<Rightarrow> nat option" where
  "indexOf pat [] = (if pat = [] then Some 0 else None)"
| "indexOf pat (x # xs) =
     (if prefix pat (x # xs) then Some 0 else map_option Suc (indexOf pat xs))"

text \<open>
  Modelled from the spec: reading the \<open>/ByteRange\<close> entry of a document, missing from the
  source (the signer "parses the intermediate document's /ByteRange entry to recover the
  two (offset, length) spans"). The entry is written as in a PDF signature dictionary: the
  name \<open>/ByteRange\<close>, then four decimal integers in square brackets, separated (and
  possibly padded) by spaces. The first entry of the document is read.
\<close>

definition isDigit :: "byte \<Rightarrow> bool" where
  "isDigit b = (0x30 \<le> b \<and> b \<le> 0x39)"

definition isSpace :: "byte \<Rightarrow> bool" where
  "isSpace b = (b = 0x20)"

definition decimal :: "buffer \<Rightarrow> nat" where
  "decimal ds = foldl (\<lambda>n d. 10 * n + (unat d - 48)) 0 ds"

definition integerToken :: "buffer \<Rightarrow> (nat \<times> buffer) option" where
  "integerToken s =
     (let t = dropWhile isSpace s; ds = takeWhile isDigit t in
      if ds = [] then None else Some (decimal ds, dropWhile isDigit t))"

definition symbolToken :: "byte \<Rightarrow> buffer \<Rightarrow> buffer option" where
  "symbolToken c s =
     (case dropWhile isSpace s of [] \<Rightarrow> None | b # t \<Rightarrow> if b = c then Some t else None)"

definition parseByteRange :: "buffer \<Rightarrow> (nat \<times> nat \<times> nat \<times> nat) option" where
  "parseByteRange doc =
     (case indexOf (ascii ''/ByteRange'') doc of
        None \<Rightarrow> None
      | Some p \<Rightarrow>
          (case symbolToken 0x5B (drop (p + 10) doc) of
             None \<Rightarrow> None
           | Some s0 \<Rightarrow>
          (case integerToken s0 of
             None \<Rightarrow> None
           | Some (offset1, s1) \<Rightarrow>
          (case integerToken s1 of
             None \<Rightarrow> None
           | Some (length1, s2) \<Rightarrow>
          (case integerToken s2 of
             None \<Rightarrow> None
           | Some (offset2, s3) \<Rightarrow>
          (case integerToken s3 of
             None \<Rightarrow> None
           | Some (length2, s4) \<Rightarrow>
          (case symbolToken 0x5D s4 of
             None \<Rightarrow> None
           | Some s5 \<Rightarrow> Some (offset1, length1, offset2, length2))))))))"

text \<open>
  Modelled from the spec: the byte range of section 3, missing from the source: "a pair of
  (offset, length) spans ... computed so that concatenating the two spans yields every byte
  of the final document except the reserved /Contents hex payload". \<open>signedBytes\<close> is that
  concatenation; the payload lies between the end of the first span and the start of the
  second.
\<close>

definition signedBytes :: "buffer \<Rightarrow> buffer" where
  "signedBytes doc =
     (case parseByteRange doc of
        None \<Rightarrow> []
      | Some (offset1, length1, offset2, length2) \<Rightarrow>
          take length1 (drop offset1 doc) @ take length2 (drop offset2 doc))"

definition contentsStart :: "buffer \<Rightarrow> nat" where
  "contentsStart doc =
     (case parseByteRange doc of
        None \<Rightarrow> 0
      | Some (offset1, length1, offset2, length2) \<Rightarrow> offset1 + length1)"

definition contentsEnd :: "buffer \<Rightarrow> nat" where
  "contentsEnd doc =
     (case parseByteRange doc of
        None \<Rightarrow> 0
      | Some (offset1, length1, offset2, length2) \<Rightarrow> offset2)"

definition contentsBytes :: "buffer \<Rightarrow> buffer" where
  "contentsBytes doc = take (contentsEnd doc - contentsStart doc) (drop (contentsStart doc) doc)"

text \<open>
  Modelled from the spec: the intermediate document the Placeholder Preparer returns
  (section 4.1), missing from the source, by what the specification says of it: it has a
  \<open>/ByteRange\<close> entry of four integers, whose spans start at offset 0 and cover every byte
  but the reserved payload, and the payload has the capacity chosen up front.
\<close>

definition prepared :: "nat \<Rightarrow> buffer \<Rightarrow> bool" where
  "prepared capacity doc =
     (case parseByteRange doc of
        None \<Rightarrow> False
      | Some (offset1, length1, offset2, length2) \<Rightarrow>
          offset1 = 0 \<and> offset2 = length1 + capacity \<and> offset2 + length2 = length doc)"

text \<open>
  Modelled from the spec: the bytes of the intermediate document are "final except for the
  /Contents placeholder's hex digits", so its \<open>/ByteRange\<close> entry lies outside the payload.
  The model takes the entry to precede the payload: it is read from the first span alone.
\<close>

definition byteRangeBeforeContents :: "buffer \<Rightarrow> bool" where
  "byteRangeBeforeContents doc =
     (parseByteRange (take (contentsStart doc) doc) = parseByteRange doc)"

text \<open>
  Modelled from the spec: the document behind the bytes (section 3), missing from the
  source: parsing and serialization are \<open>PDFDocument.load\<close> and \<open>save\<close> of \<open>pdf-lib\<close>.
  They stay parameters. \<open>parsePdf\<close> reads the object graph or refuses the bytes;
  serialization is flat (section 4.1): \<open>serializeBefore\<close> gives the bytes written before
  the appended signature field, and \<open>serializeAfter\<close> the bytes written after it (the
  cross-reference table and the trailer), from the offset and the length of the field.
\<close>

record 'pdf pdfModel =
  parsePdf :: "buffer \<Rightarrow> 'pdf option"
  serializeBefore :: "'pdf \<Rightarrow> buffer"
  serializeAfter :: "'pdf \<Rightarrow> nat \<Rightarrow> nat \<Rightarrow> buffer"

text \<open>
  Modelled from the spec: the \<open>/ByteRange\<close> entry as the preparer writes it, missing from
  the source. Section 4.1 wants the entry rewritten in place without a change of length,
  and section 9 "a conservative fixed-width reservation for this field": every integer is
  written with ten decimal digits, zeros in front.
\<close>

fun decimalDigits :: "nat \<Rightarrow> nat \<Rightarrow> buffer" where
  "decimalDigits 0 n = []"
| "decimalDigits (Suc k) n = decimalDigits k (n div 10) @ [of_nat (48 + n mod 10)]"

definition byteRangeEntry :: "nat \<times> nat \<times> nat \<times> nat \<Rightarrow> buffer" where
  "byteRangeEntry r =
     (case r of (offset1, length1, offset2, length2) \<Rightarrow>
        ascii ''/ByteRange ['' @ decimalDigits 10 offset1
        @ 0x20 # decimalDigits 10 length1
        @ 0x20 # decimalDigits 10 offset2
        @ 0x20 # decimalDigits 10 length2
        @ ascii '']'')"

text \<open>
  Modelled from the spec: the signature field the preparer appends (sections 3 and 4.1),
  missing from the source: the \<open>/ByteRange\<close> entry, the \<open>/Contents\<close> hex string of the
  capacity chosen up front, all digits \<open>0\<close>, and the metadata entries. The specification
  leaves the order of the entries open; the model writes the byte range first.
\<close>

definition pdfText :: "jsval \<Rightarrow> buffer" where
  "pdfText v = (case v of JString s \<Rightarrow> ascii s | _ \<Rightarrow> [])"

definition signatureFieldOpen :: buffer where
  "signatureFieldOpen = 0x0A # ascii ''<< /Type /Sig ''"

definition contentsOpen :: buffer where
  "contentsOpen = ascii '' /Contents <''"

definition signatureFieldClose :: "placeholderArgs \<Rightarrow> buffer" where
  "signatureFieldClose args =
     ascii ''> /Reason ('' @ pdfText (reason args)
     @ ascii '') /Location ('' @ pdfText (location args)
     @ ascii '') /ContactInfo ('' @ pdfText (contactInfo args)
     @ ascii '') /Name ('' @ pdfText (name args)
     @ ascii '') >>'' @ [0x0A]"

definition signatureField :: "placeholderArgs \<Rightarrow> nat \<times> nat \<times> nat \<times> nat \<Rightarrow> buffer" where
  "signatureField args byteRange =
     signatureFieldOpen @ byteRangeEntry byteRange @ contentsOpen
     @ replicate (signatureLength args) 0x30 @ signatureFieldClose args"

text \<open>
  Modelled from the spec: the Placeholder Preparer's serialization (sections 4.1 and 4.3),
  missing from the source. The document is serialized with the byte range zero, the
  offsets of the payload are read off, and the entry is overwritten in place with the real
  four integers. A document of \<open>10 ^ 10\<close> bytes or more has offsets that do not fit the ten
  digits: the specification leaves that case open, the model fails with
  \<open>PlaceholderOverflow\<close>.
\<close>

definition savePrepared :: "'pdf pdfModel \<Rightarrow> 'pdf \<Rightarrow> placeholderArgs \<Rightarrow> failure + buffer" where
  "savePrepared D pdf args =
     (let before = serializeBefore D pdf;
          placeholder = signatureField args (0, 0, 0, 0);
          serialized = before @ placeholder
                       @ serializeAfter D pdf (length before) (length placeholder);
          entryOffset = length before + length signatureFieldOpen;
          contentsOffset = entryOffset + length (byteRangeEntry (0, 0, 0, 0))
                           + length contentsOpen;
          contentsLimit = contentsOffset + signatureLength args
      in if 10 ^ 10 \<le> length serialized then Inl PlaceholderOverflow
         else Inr (take entryOffset serialized
                   @ byteRangeEntry (0, contentsOffset, contentsLimit,
                                     length serialized - contentsLimit)
                   @ drop (entryOffset + length (byteRangeEntry (0, 0, 0, 0))) serialized))"

text \<open>
  Modelled from the spec: the detached signature of section 3, missing from the source: "a
  cryptographic container (digest + signature + signer certificate, encoded per the
  applicable binary signature format)", and its hexadecimal encoding.
\<close>

record container =
  embeddedDigest :: buffer
  signatureValue :: buffer
  signerCertificate :: buffer

definition hexDigit :: "nat \<Rightarrow> byte" where
  "hexDigit n = (if n < 10 then of_nat (48 + n) else of_nat (87 + n))"

definition hexEncode :: "buffer \<Rightarrow> buffer" where
  "hexEncode bs = concat (map (\<lambda>b. [hexDigit (unat b div 16), hexDigit (unat b mod 16)]) bs)"

text \<open>
  Modelled from the spec: the cryptography the signer relies on, missing from the source
  and left open by the specification; it is a parameter. \<open>openIdentity\<close> gives the private
  key and the certificate of a signing identity (the key container and its passphrase),
  or \<open>None\<close> when "the private key cannot be used (wrong passphrase, corrupted key
  material)".
\<close>

record 'key cryptography =
  digest :: "buffer \<Rightarrow> buffer"
  openIdentity :: "buffer option \<Rightarrow> string \<Rightarrow> ('key \<times> buffer) option"
  signDigest :: "'key \<Rightarrow> buffer \<Rightarrow> buffer"
  encodeContainer :: "container \<Rightarrow> buffer"

definition detachedContainer ::
  "'key cryptography \<Rightarrow> 'key \<Rightarrow> buffer \<Rightarrow> buffer \<Rightarrow> container" where
  "detachedContainer C key cert bytes =
     \<lparr>embeddedDigest = digest C bytes,
      signatureValue = signDigest C key (digest C bytes),
      signerCertificate = cert\<rparr>"

text \<open>
  Modelled from the spec: the Detached Signer \<open>sign(intermediateDocument, identity)\<close> of
  section 4.2, missing from the source (it is \<open>SignPdf.sign\<close> with a \<open>P12Signer\<close> of the
  packages). It reads the byte range, digests the bytes of the two spans, builds the
  container, fails with \<open>SigningFailure\<close> if the key cannot be used or the container's
  hex encoding exceeds the reserved capacity, and otherwise splices the encoding into the
  reserved positions, filling the unused capacity with the digit \<open>0\<close> (the hex encoding of
  zero bytes). A document without a \<open>/ByteRange\<close> entry is an \<open>InvalidDocument\<close>.
\<close>

definition sign ::
  "'key cryptography \<Rightarrow> buffer \<Rightarrow> buffer option \<times> string \<Rightarrow> failure + buffer" where
  "sign C intermediateDocument identity =
     (case parseByteRange intermediateDocument of
        None \<Rightarrow> Inl InvalidDocument
      | Some byteRange \<Rightarrow>
          (case openIdentity C (fst identity) (snd identity) of
             None \<Rightarrow> Inl SigningFailure
           | Some (key, cert) \<Rightarrow>
               let hex = hexEncode (encodeContainer C
                           (detachedContainer C key cert (signedBytes intermediateDocument)));
                   capacity = contentsEnd intermediateDocument - contentsStart intermediateDocument
               in if capacity < length hex then Inl SigningFailure
                  else Inr (take (contentsStart intermediateDocument) intermediateDocument
                            @ hex @ replicate (capacity - length hex) 0x30
                            @ drop (contentsEnd intermediateDocument) intermediateDocument)))"

text \<open>
  Modelled from the spec: the signer as the call \<open>signPdfLib.sign(bytes, p12Signer)\<close> of
  the source sees it, the failure thrown as an \<open>Error\<close>; the \<open>p12Signer\<close> is the identity
  it was made from.
\<close>

definition signThrowing ::
  "'key cryptography \<Rightarrow> buffer \<Rightarrow> buffer option \<times> string \<Rightarrow> error + buffer" where
  "signThrowing C bytes p12Signer =
     (case sign C bytes p12Signer of
        Inl f \<Rightarrow> Inl (Error (failureName f))
      | Inr final \<Rightarrow> Inr final)"

text \<open>
  Modelled from the spec: the five package calls of \<open>signPdfBuffer\<close> as the specification
  describes the two components. \<open>pdflibAddPlaceholder\<close> records the field to append,
  \<open>save\<close> serializes with it, and \<open>sign\<close> is the Detached Signer.
\<close>

definition specPackages ::
  "'pdf pdfModel \<Rightarrow> 'key cryptography
     \<Rightarrow> ('pdf \<times> placeholderArgs option, buffer option \<times> string) libs" where
  "specPackages D C =
     \<lparr>PDFDocument_load =
        (\<lambda>b. case parsePdf D b of
               None \<Rightarrow> Inl (Error (failureName InvalidDocument))
             | Some pdf \<Rightarrow> Inr (pdf, None)),
      pdflibAddPlaceholder = (\<lambda>d a. Inr (fst d, Some a)),
      PDFDocument_save =
        (\<lambda>d. case snd d of
               None \<Rightarrow> Inr (serializeBefore D (fst d)
                             @ serializeAfter D (fst d) (length (serializeBefore D (fst d))) 0)
             | Some a \<Rightarrow>
                 (case savePrepared D (fst d) a of
                    Inl f \<Rightarrow> Inl (Error (failureName f))
                  | Inr bytes \<Rightarrow> Inr bytes)),
      P12Signer_new = (\<lambda>c p. Inr (c, p)),
      SignPdf_sign = signThrowing C\<rparr>"

section \<open>Sample documents and a toy cryptography\<close>

text \<open>
  Small instances on which the preparer and the signer can be run: a cryptography whose
  digest is the length and the sum of the bytes, a document model whose object graph is
  the bytes themselves, followed by a fixed trailer, an unsigned document, and two
  intermediate documents with a reserved payload of 16 and of 8192 digits.
\<close>

definition toyCryptography :: "buffer cryptography" where
  "toyCryptography =
     \<lparr>digest = (\<lambda>bs. [of_nat (length bs), foldr (+) bs 0]),
      openIdentity = (\<lambda>p12 pw. case p12 of None \<Rightarrow> None
                        | Some b \<Rightarrow> if pw = ''password'' then Some (b, b) else None),
      signDigest = (\<lambda>key d. rev d),
      encodeContainer = (\<lambda>c. embeddedDigest c @ signatureValue c @ signerCertificate c)\<rparr>"

definition toyPdfModel :: "buffer pdfModel" where
  "toyPdfModel =
     \<lparr>parsePdf = (\<lambda>b. Some b),
      serializeBefore = (\<lambda>pdf. pdf),
      serializeAfter = (\<lambda>pdf offset len. ascii ''trailer << /Root 1 0 R >> %%EOF'')\<rparr>"

definition samplePdf :: buffer where
  "samplePdf = ascii ''%PDF-1.7 1 0 obj << /Type /Catalog >> endobj''"

definition sampleHead :: buffer where
  "sampleHead = ascii ''%PDF-1.7 /ByteRange [0 42 58 6] /Contents ''"

definition sampleIntermediate :: buffer where
  "sampleIntermediate = sampleHead @ replicate 16 0x30 @ ascii '' %%EOF''"

definition sampleSigned :: buffer where
  "sampleSigned = sampleHead @ ascii ''3004043030820000'' @ ascii '' %%EOF''"

definition sampleHead8192 :: buffer where
  "sampleHead8192 = ascii ''%PDF-1.7 /ByteRange [0 44 8236 6] /Contents ''"

definition sampleIntermediate8192 :: buffer where
  "sampleIntermediate8192 = sampleHead8192 @ replicate 8192 0x30 @ ascii '' %%EOF''"

section \<open>Properties of the header check\<close>

lemma asciiChar_magic:
  "asciiChar 0x25 = CHR ''%''" "asciiChar 0x50 = CHR ''P''"
  "asciiChar 0x44 = CHR ''D''" "asciiChar 0x46 = CHR ''F''"
  by code_simp+

lemma toString_ascii_magic: "map asciiChar pdfMagic = ''%PDF''"
  by (simp add: pdfMagic_def asciiChar_magic)

lemma isPdfValid_take4: "isPdfValid buffer = isPdfValid (take 4 buffer)"
  by (simp add: isPdfValid_def toString_ascii_def min_def)

lemma asciiChar_eq_iff:
  "asciiChar b = c \<longleftrightarrow> unat (b AND 0x7F) = of_char c"
proof -
  have "unat (b AND 0x7F) < 2 ^ 8"
    using unsigned_less [of "b AND 0x7F", where ?'a = nat] by simp
  then have "take_bit 8 (unat (b AND 0x7F)) = unat (b AND 0x7F)"
    by (simp only: take_bit_nat_eq_self_iff)
  then show ?thesis
    by (simp add: asciiChar_def char_of_eq_iff)
qed

lemma asciiChar_eq_magic:
  "asciiChar b = CHR ''%'' \<longleftrightarrow> b AND 0x7F = 0x25"
  "asciiChar b = CHR ''P'' \<longleftrightarrow> b AND 0x7F = 0x50"
  "asciiChar b = CHR ''D'' \<longleftrightarrow> b AND 0x7F = 0x44"
  "asciiChar b = CHR ''F'' \<longleftrightarrow> b AND 0x7F = 0x46"
  by (simp_all add: asciiChar_eq_iff word_unat_eq_iff [of "b AND 0x7F"])

lemma magic_eq_asciiChar:
  "CHR ''%'' = asciiChar b \<longleftrightarrow> b AND 0x7F = 0x25"
  "CHR ''P'' = asciiChar b \<longleftrightarrow> b AND 0x7F = 0x50"
  "CHR ''D'' = asciiChar b \<longleftrightarrow> b AND 0x7F = 0x44"
  "CHR ''F'' = asciiChar b \<longleftrightarrow> b AND 0x7F = 0x46"
  using asciiChar_eq_magic [of b] by auto

text \<open>
  The buffers that pass the check: those of at least four octets whose first four octets,
  with the highest bit cleared, are \<open>%PDF\<close>.
\<close>

lemma isPdfValid_iff:
  "isPdfValid buffer \<longleftrightarrow>
     4 \<le> length buffer \<and> map (\<lambda>b. b AND 0x7F) (take 4 buffer) = pdfMagic"
proof (cases "4 \<le> length buffer")
  case False
  then show ?thesis by (simp add: isPdfValid_def)
next
  case True
  then obtain a b c d rest where "buffer = a # b # c # d # rest"
    by (cases buffer; cases "tl buffer"; cases "tl (tl buffer)"; cases "tl (tl (tl buffer))")
       auto
  then show ?thesis
    by (simp add: isPdfValid_def toString_ascii_def startsWith_def pdfMagic_def
        magic_eq_asciiChar)
qed

text \<open>
  Claim C9. The check reads the first four octets only: a buffer of at least four octets
  that starts with the octets of \<open>%PDF\<close> is accepted whatever follows, a buffer of fewer
  than four octets is rejected, and the verdict on any buffer is the verdict on its first
  four octets.
\<close>

theorem isPdfValid_first_four:
  "(4 \<le> length buffer \<and> take 4 buffer = pdfMagic \<longrightarrow> isPdfValid buffer)
   \<and> (length buffer < 4 \<longrightarrow> \<not> isPdfValid buffer)
   \<and> isPdfValid buffer = isPdfValid (take 4 buffer)"
proof (intro conjI impI)
  assume h: "4 \<le> length buffer \<and> take 4 buffer = pdfMagic"
  then show "isPdfValid buffer"
    by (simp add: isPdfValid_def toString_ascii_def startsWith_def toString_ascii_magic)
next
  assume "length buffer < 4"
  then show "\<not> isPdfValid buffer"
    by (simp add: isPdfValid_def)
next
  show "isPdfValid buffer = isPdfValid (take 4 buffer)"
    by (rule isPdfValid_take4)
qed

theorem isPdfValid_first_four_witness:
  "isPdfValid (pdfMagic @ [0x2D, 0x31, 0x2E, 0x37, 0xFF]) \<and> \<not> isPdfValid [0x25, 0x50, 0x44]
   \<and> isPdfValid (pdfMagic @ [0x00]) = isPdfValid pdfMagic"
  using isPdfValid_first_four [of "pdfMagic @ [0x2D, 0x31, 0x2E, 0x37, 0xFF]"]
    isPdfValid_first_four [of "[0x25, 0x50, 0x44]"]
    isPdfValid_first_four [of "pdfMagic @ [0x00]"]
  by (auto simp: pdfMagic_def)

section \<open>Runs\<close>

lemma fst_thenDo_call [simp]:
  "fst (thenDo (call e r) f) = e # (case r of Inl err \<Rightarrow> [] | Inr a \<Rightarrow> fst (f a))"
  by (simp add: thenDo_def call_def split: prod.splits sum.splits)

lemma snd_thenDo_call [simp]:
  "snd (thenDo (call e r) f) = (case r of Inl err \<Rightarrow> Inl err | Inr a \<Rightarrow> snd (f a))"
  by (simp add: thenDo_def call_def split: prod.splits sum.splits)

lemma fst_rethrow [simp]: "fst (rethrow pfx m) = fst m"
  by (cases m) (auto simp: rethrow_def split: sum.splits error.splits)

lemma snd_rethrow [simp]:
  "snd (rethrow pfx m) =
     (case snd m of Inl (Error msg) \<Rightarrow> Inl (Error (pfx @ msg)) | Inr a \<Rightarrow> Inr a)"
  by (cases m) (auto simp: rethrow_def split: sum.splits error.splits)

lemma placeholderCalls_simps [simp]:
  "placeholderCalls [] = []"
  "placeholderCalls (AddPlaceholder d a # evs) = a # placeholderCalls evs"
  "placeholderCalls (Sys c # evs) = placeholderCalls evs"
  "placeholderCalls (PdfLoad b # evs) = placeholderCalls evs"
  "placeholderCalls (PdfSave d # evs) = placeholderCalls evs"
  "placeholderCalls (NewP12Signer k p # evs) = placeholderCalls evs"
  "placeholderCalls (Sign b s # evs) = placeholderCalls evs"
  by (simp_all add: placeholderCalls_def)

lemma sysCalls_simps [simp]:
  "sysCalls [] = []"
  "sysCalls (Sys c # evs) = c # sysCalls evs"
  "sysCalls (AddPlaceholder d a # evs) = sysCalls evs"
  "sysCalls (PdfLoad b # evs) = sysCalls evs"
  "sysCalls (PdfSave d # evs) = sysCalls evs"
  "sysCalls (NewP12Signer k p # evs) = sysCalls evs"
  "sysCalls (Sign b s # evs) = sysCalls evs"
  by (simp_all add: sysCalls_def)

lemma fileReads_simps [simp]:
  "fileReads [] = []"
  "fileReads (FsRead q # cs) = q # fileReads cs"
  "fileReads (FsStat q # cs) = fileReads cs"
  "fileReads (FsExists q # cs) = fileReads cs"
  "fileReads (FsWrite q b # cs) = fileReads cs"
  "fileReads (ConsoleLog m # cs) = fileReads cs"
  "fileReads (ConsoleError m # cs) = fileReads cs"
  "fileReads (cs @ cs') = fileReads cs @ fileReads cs'"
  by (simp_all add: fileReads_def)

section \<open>The header check in signPdfBuffer\<close>

lemma isPdfValid_highBitHeader: "isPdfValid highBitHeader"
  by code_simp

lemma isPdfValid_pdfMagic: "isPdfValid pdfMagic"
  by code_simp

text \<open>
  A buffer that fails the header check is rejected before any call out of the program:
  nothing is loaded, no placeholder is added, nothing is signed and nothing is written.
\<close>

lemma signPdfBuffer_invalid:
  "\<not> isPdfValid pdfBuffer \<Longrightarrow>
   signPdfBuffer L this pdfBuffer opts =
     ([], Inl (Error ''Failed to sign PDF buffer: Invalid or corrupted PDF file''))"
  by (simp add: signPdfBuffer_def rethrow_def)

lemma signPdf_invalid:
  "readFileSync env inputPath = Inr pdfBuffer \<Longrightarrow> \<not> isPdfValid pdfBuffer \<Longrightarrow>
   signPdf L env this inputPath outputPath opts =
     ([Sys (FsRead inputPath)],
      Inl (Error ''Failed to sign PDF: Invalid or corrupted PDF file''))"
  by (simp add: signPdf_def thenDo_def call_def rethrow_def)

text \<open>A run of \<open>signPdfBuffer\<close> touches no file; it writes one line to the console when it succeeds.\<close>

lemma signPdfBuffer_sysCalls:
  "set (sysCalls (fst (signPdfBuffer L this pdfBuffer opts)))
     \<subseteq> {ConsoleLog ''PDF buffer signed successfully''}"
  by (simp add: signPdfBuffer_def Let_def split: sum.splits)

lemma isPdfValid_highBitHeader_append: "isPdfValid (highBitHeader @ rest)"
proof -
  have "isPdfValid (take 4 (highBitHeader @ rest))"
    using isPdfValid_highBitHeader by (simp add: highBitHeader_def)
  then show ?thesis
    by (simp only: isPdfValid_take4 [symmetric])
qed

text \<open>
  Claim C3. The claim fails on the code. The check decodes the first four octets as
  \<open>'ascii'\<close>, which clears their highest bit, so a buffer that starts with the octets
  \<open>A5 D0 C4 C6\<close>, which are not \<open>%PDF\<close>, passes it. Such a buffer is not rejected
  before the placeholder and the cryptographic work: whenever the packages accept it (as
  they do when a well-formed PDF follows the four octets), \<open>signPdfBuffer\<close> loads it,
  adds the placeholder, saves, signs and returns the signed buffer.
\<close>

theorem signPdfBuffer_signs_high_bit_header:
  assumes "PDFDocument_load L (highBitHeader @ rest) = Inr pdfDoc"
    and "pdflibAddPlaceholder L pdfDoc
           \<lparr>reason = orElse (getProp (case opts of None \<Rightarrow> [] | Some obj \<Rightarrow> obj) ''reason'')
                       (JString ''Document signed by server''),
            location = orElse (getProp (case opts of None \<Rightarrow> [] | Some obj \<Rightarrow> obj) ''location'')
                       (JString ''Server''),
            contactInfo = orElse (getProp (case opts of None \<Rightarrow> [] | Some obj \<Rightarrow> obj) ''contact'')
                       (JString ''N/A''),
            name = JString ''PDF Signing Server'',
            signatureLength = 8192\<rparr> = Inr pdfDoc'"
    and "PDFDocument_save L pdfDoc' = Inr pdfBytesWithPlaceholder"
    and "P12Signer_new L (certificate this) (passphrase this) = Inr p12Signer"
    and "SignPdf_sign L pdfBytesWithPlaceholder p12Signer = Inr signedPdfBytes"
  shows "take 4 (highBitHeader @ rest) \<noteq> pdfMagic
    \<and> signPdfBuffer L this (highBitHeader @ rest) opts =
        ([PdfLoad (highBitHeader @ rest),
          AddPlaceholder pdfDoc
           \<lparr>reason = orElse (getProp (case opts of None \<Rightarrow> [] | Some obj \<Rightarrow> obj) ''reason'')
                       (JString ''Document signed by server''),
            location = orElse (getProp (case opts of None \<Rightarrow> [] | Some obj \<Rightarrow> obj) ''location'')
                       (JString ''Server''),
            contactInfo = orElse (getProp (case opts of None \<Rightarrow> [] | Some obj \<Rightarrow> obj) ''contact'')
                       (JString ''N/A''),
            name = JString ''PDF Signing Server'',
            signatureLength = 8192\<rparr>,
          PdfSave pdfDoc',
          NewP12Signer (certificate this) (passphrase this),
          Sign pdfBytesWithPlaceholder p12Signer,
          Sys (ConsoleLog ''PDF buffer signed successfully'')],
         Inr signedPdfBytes)"
proof -
  have "take 4 (highBitHeader @ rest) \<noteq> pdfMagic"
    by (simp add: highBitHeader_def pdfMagic_def)
  moreover have "signPdfBuffer L this (highBitHeader @ rest) opts =
        ([PdfLoad (highBitHeader @ rest),
          AddPlaceholder pdfDoc
           \<lparr>reason = orElse (getProp (case opts of None \<Rightarrow> [] | Some obj \<Rightarrow> obj) ''reason'')
                       (JString ''Document signed by server''),
            location = orElse (getProp (case opts of None \<Rightarrow> [] | Some obj \<Rightarrow> obj) ''location'')
                       (JString ''Server''),
            contactInfo = orElse (getProp (case opts of None \<Rightarrow> [] | Some obj \<Rightarrow> obj) ''contact'')
                       (JString ''N/A''),
            name = JString ''PDF Signing Server'',
            signatureLength = 8192\<rparr>,
          PdfSave pdfDoc',
          NewP12Signer (certificate this) (passphrase this),
          Sign pdfBytesWithPlaceholder p12Signer,
          Sys (ConsoleLog ''PDF buffer signed successfully'')],
         Inr signedPdfBytes)"
    using assms
    by (simp add: prod_eq_iff signPdfBuffer_def isPdfValid_highBitHeader_append Let_def)
  ultimately show ?thesis
    by simp
qed

theorem signPdfBuffer_signs_high_bit_header_witness:
  "take 4 (highBitHeader @ [0x0A, 0x25, 0x50, 0x44, 0x46, 0x2D, 0x31, 0x2E, 0x37]) \<noteq> pdfMagic
   \<and> isPdfValid (highBitHeader @ [0x0A, 0x25, 0x50, 0x44, 0x46, 0x2D, 0x31, 0x2E, 0x37])
   \<and> snd (signPdfBuffer echoLibs testSigner
            (highBitHeader @ [0x0A, 0x25, 0x50, 0x44, 0x46, 0x2D, 0x31, 0x2E, 0x37]) None)
       = Inr (highBitHeader @ [0x0A, 0x25, 0x50, 0x44, 0x46, 0x2D, 0x31, 0x2E, 0x37])"
proof -
  let ?b = "highBitHeader @ [0x0A, 0x25, 0x50, 0x44, 0x46, 0x2D, 0x31, 0x2E, 0x37]"
  have "snd (signPdfBuffer echoLibs testSigner ?b None) = Inr ?b"
    using signPdfBuffer_signs_high_bit_header
      [where L = echoLibs and rest = "[0x0A, 0x25, 0x50, 0x44, 0x46, 0x2D, 0x31, 0x2E, 0x37]"
        and pdfDoc = ?b and opts = None and pdfDoc' = ?b and pdfBytesWithPlaceholder = ?b
        and this = testSigner and p12Signer = "certificate testSigner"
        and signedPdfBytes = ?b]
    by (simp add: echoLibs_def)
  moreover have "take 4 ?b \<noteq> pdfMagic"
    by (simp add: highBitHeader_def pdfMagic_def)
  ultimately show ?thesis
    using isPdfValid_highBitHeader_append
      [of "[0x0A, 0x25, 0x50, 0x44, 0x46, 0x2D, 0x31, 0x2E, 0x37]"]
    by simp
qed

section \<open>Signature metadata\<close>

text \<open>The placeholder call of a run on a buffer that passes the header check and loads.\<close>

lemma signPdfBuffer_placeholderCalls:
  assumes "isPdfValid pdfBuffer" "PDFDocument_load L pdfBuffer = Inr pdfDoc"
  shows "placeholderCalls (fst (signPdfBuffer L this pdfBuffer opts)) =
    [\<lparr>reason = orElse (getProp (case opts of None \<Rightarrow> [] | Some obj \<Rightarrow> obj) ''reason'')
                (JString ''Document signed by server''),
      location = orElse (getProp (case opts of None \<Rightarrow> [] | Some obj \<Rightarrow> obj) ''location'')
                (JString ''Server''),
      contactInfo = orElse (getProp (case opts of None \<Rightarrow> [] | Some obj \<Rightarrow> obj) ''contact'')
                (JString ''N/A''),
      name = JString ''PDF Signing Server'',
      signatureLength = 8192\<rparr>]"
  using assms
  by (simp add: signPdfBuffer_def Let_def split: sum.splits)

lemma signPdfBuffer_no_placeholder:
  "\<not> isPdfValid pdfBuffer \<or> (\<exists>e. PDFDocument_load L pdfBuffer = Inl e) \<Longrightarrow>
   placeholderCalls (fst (signPdfBuffer L this pdfBuffer opts)) = []"
  by (auto simp: signPdfBuffer_def Let_def)

lemma orElse_not_empty: "d \<noteq> JString [] \<Longrightarrow> orElse v d \<noteq> JString []"
  by (cases v) (auto simp: orElse_def)

lemma orElse_empty: "orElse (JString []) d = d"
  by (simp add: orElse_def)

text \<open>
  Claim C5. On a buffer that passes the header check and loads, a call without options
  or with the empty options object creates the signature field with exactly the default
  strings; it behaves as the call with these strings given explicitly, so the missing
  options raise no error of their own; and it returns the signed document whenever the
  calls into the packages succeed.
\<close>

theorem signPdfBuffer_default_metadata:
  assumes "opts = None \<or> opts = Some []"
    and "isPdfValid pdfBuffer"
    and "PDFDocument_load L pdfBuffer = Inr pdfDoc"
  shows "placeholderCalls (fst (signPdfBuffer L this pdfBuffer opts)) =
           [\<lparr>reason = JString ''Document signed by server'', location = JString ''Server'',
             contactInfo = JString ''N/A'', name = JString ''PDF Signing Server'',
             signatureLength = 8192\<rparr>]
         \<and> signPdfBuffer L this pdfBuffer opts =
             signPdfBuffer L this pdfBuffer
               (Some [(''reason'', JString ''Document signed by server''),
                      (''location'', JString ''Server''), (''contact'', JString ''N/A'')])
         \<and> (\<forall>pdfDoc' bytes p12Signer signedPdfBytes.
              pdflibAddPlaceholder L pdfDoc
                \<lparr>reason = JString ''Document signed by server'', location = JString ''Server'',
                 contactInfo = JString ''N/A'', name = JString ''PDF Signing Server'',
                 signatureLength = 8192\<rparr> = Inr pdfDoc'
              \<and> PDFDocument_save L pdfDoc' = Inr bytes
              \<and> P12Signer_new L (certificate this) (passphrase this) = Inr p12Signer
              \<and> SignPdf_sign L bytes p12Signer = Inr signedPdfBytes
              \<longrightarrow> snd (signPdfBuffer L this pdfBuffer opts) = Inr signedPdfBytes)"
proof -
  have g: "getProp [] k = JUndefined" for k
    by (simp add: getProp_def)
  from assms(1) have o: "(case opts of None \<Rightarrow> [] | Some obj \<Rightarrow> obj) = []"
    by auto
  have 1: "placeholderCalls (fst (signPdfBuffer L this pdfBuffer opts)) =
           [\<lparr>reason = JString ''Document signed by server'', location = JString ''Server'',
             contactInfo = JString ''N/A'', name = JString ''PDF Signing Server'',
             signatureLength = 8192\<rparr>]"
    by (simp add: signPdfBuffer_placeholderCalls [OF assms(2,3)] o g orElse_def)
  have 2: "signPdfBuffer L this pdfBuffer opts =
             signPdfBuffer L this pdfBuffer
               (Some [(''reason'', JString ''Document signed by server''),
                      (''location'', JString ''Server''), (''contact'', JString ''N/A'')])"
    by (simp add: signPdfBuffer_def o orElse_def getProp_def)
  have 3: "snd (signPdfBuffer L this pdfBuffer opts) = Inr signedPdfBytes"
    if "pdflibAddPlaceholder L pdfDoc
                \<lparr>reason = JString ''Document signed by server'', location = JString ''Server'',
                 contactInfo = JString ''N/A'', name = JString ''PDF Signing Server'',
                 signatureLength = 8192\<rparr> = Inr pdfDoc'"
       "PDFDocument_save L pdfDoc' = Inr bytes"
       "P12Signer_new L (certificate this) (passphrase this) = Inr p12Signer"
       "SignPdf_sign L bytes p12Signer = Inr signedPdfBytes"
    for pdfDoc' bytes p12Signer signedPdfBytes
    using that assms(2,3) by (simp add: signPdfBuffer_def o g orElse_def Let_def)
  from 1 2 3 show ?thesis by blast
qed

theorem signPdfBuffer_default_metadata_witness:
  "isPdfValid pdfMagic \<and> PDFDocument_load echoLibs pdfMagic = Inr pdfMagic
   \<and> placeholderCalls (fst (signPdfBuffer echoLibs testSigner pdfMagic None)) =
           [\<lparr>reason = JString ''Document signed by server'', location = JString ''Server'',
             contactInfo = JString ''N/A'', name = JString ''PDF Signing Server'',
             signatureLength = 8192\<rparr>]
   \<and> snd (signPdfBuffer echoLibs testSigner pdfMagic None) = Inr pdfMagic"
proof -
  note v = isPdfValid_pdfMagic
  have l: "PDFDocument_load echoLibs pdfMagic = Inr pdfMagic"
    by (simp add: echoLibs_def)
  have t: "placeholderCalls (fst (signPdfBuffer echoLibs testSigner pdfMagic None)) =
           [\<lparr>reason = JString ''Document signed by server'', location = JString ''Server'',
             contactInfo = JString ''N/A'', name = JString ''PDF Signing Server'',
             signatureLength = 8192\<rparr>]"
    and s: "\<forall>pdfDoc' bytes p12Signer signedPdfBytes.
              pdflibAddPlaceholder echoLibs pdfMagic
                \<lparr>reason = JString ''Document signed by server'', location = JString ''Server'',
                 contactInfo = JString ''N/A'', name = JString ''PDF Signing Server'',
                 signatureLength = 8192\<rparr> = Inr pdfDoc'
              \<and> PDFDocument_save echoLibs pdfDoc' = Inr bytes
              \<and> P12Signer_new echoLibs (certificate testSigner) (passphrase testSigner)
                  = Inr p12Signer
              \<and> SignPdf_sign echoLibs bytes p12Signer = Inr signedPdfBytes
              \<longrightarrow> snd (signPdfBuffer echoLibs testSigner pdfMagic None) = Inr signedPdfBytes"
    using signPdfBuffer_default_metadata [of None, OF _ v l, of testSigner] by blast+
  have "snd (signPdfBuffer echoLibs testSigner pdfMagic None) = Inr pdfMagic"
    using s [rule_format, of pdfMagic pdfMagic "certificate testSigner" pdfMagic]
    by (simp add: echoLibs_def)
  with t v l show ?thesis by simp
qed

text \<open>
  Claim C10. The defaults are chosen with \<open>||\<close>, so an empty string given for
  \<open>reason\<close>, \<open>location\<close> or \<open>contact\<close> is replaced by the default as a missing option is:
  in no run is a signature field created with an empty string in its metadata, and a run on
  a buffer that passes the header check and loads creates exactly one field.
\<close>

theorem signPdfBuffer_empty_string_replaced:
  "(\<forall>a \<in> set (placeholderCalls (fst (signPdfBuffer L this pdfBuffer (Some obj)))).
      (getProp obj ''reason'' = JString '''' \<longrightarrow> reason a = JString ''Document signed by server'')
      \<and> (getProp obj ''location'' = JString '''' \<longrightarrow> location a = JString ''Server'')
      \<and> (getProp obj ''contact'' = JString '''' \<longrightarrow> contactInfo a = JString ''N/A'')
      \<and> reason a \<noteq> JString '''' \<and> location a \<noteq> JString ''''
      \<and> contactInfo a \<noteq> JString '''' \<and> name a \<noteq> JString '''')
   \<and> (isPdfValid pdfBuffer \<and> PDFDocument_load L pdfBuffer = Inr pdfDoc
        \<longrightarrow> length (placeholderCalls (fst (signPdfBuffer L this pdfBuffer (Some obj)))) = 1)"
proof (cases "isPdfValid pdfBuffer")
  case False
  then show ?thesis
    by (simp add: signPdfBuffer_no_placeholder)
next
  case valid: True
  show ?thesis
  proof (cases "PDFDocument_load L pdfBuffer")
    case (Inl e)
    then show ?thesis
      by (simp add: signPdfBuffer_no_placeholder)
  next
    case (Inr d)
    show ?thesis
      by (simp add: signPdfBuffer_placeholderCalls [OF valid Inr] orElse_not_empty orElse_empty)
  qed
qed

theorem signPdfBuffer_empty_string_replaced_witness:
  "placeholderCalls (fst (signPdfBuffer echoLibs testSigner pdfMagic
      (Some [(''reason'', JString ''''), (''location'', JString ''''), (''contact'', JString '''')])))
   = [\<lparr>reason = JString ''Document signed by server'', location = JString ''Server'',
       contactInfo = JString ''N/A'', name = JString ''PDF Signing Server'',
       signatureLength = 8192\<rparr>]"
proof -
  let ?obj = "[(''reason'', JString ''''), (''location'', JString ''''), (''contact'', JString '''')]"
  let ?calls = "placeholderCalls (fst (signPdfBuffer echoLibs testSigner pdfMagic (Some ?obj)))"
  note v = isPdfValid_pdfMagic
  have l: "PDFDocument_load echoLibs pdfMagic = Inr pdfMagic"
    by (simp add: echoLibs_def)
  have g: "getProp ?obj ''reason'' = JString ''''" "getProp ?obj ''location'' = JString ''''"
    "getProp ?obj ''contact'' = JString ''''"
    by (simp_all add: getProp_def)
  note t = signPdfBuffer_empty_string_replaced
    [of echoLibs testSigner pdfMagic ?obj pdfMagic]
  from t v l have len: "length ?calls = 1"
    by blast
  then obtain a where a: "?calls = [a]"
    by (cases ?calls) auto
  with t g have "reason a = JString ''Document signed by server''" "location a = JString ''Server''"
    "contactInfo a = JString ''N/A''"
    by auto
  moreover have "name a = JString ''PDF Signing Server''" "signatureLength a = 8192"
    using a signPdfBuffer_placeholderCalls [OF v l, of testSigner "Some ?obj"] by auto
  ultimately show ?thesis
    using a by (cases a) auto
qed

text \<open>
  The route \<open>POST /api/sign\<close> turns a missing \<open>location\<close> or \<open>contact\<close> into the empty
  string; the signer then replaces it by its own default.
\<close>

lemma signRoute_blank_options:
  assumes "isPdfValid pdfBuffer" "PDFDocument_load L pdfBuffer = Inr pdfDoc"
    and "getProp query ''location'' = JUndefined" "getProp query ''contact'' = JUndefined"
  shows "map (\<lambda>a. (location a, contactInfo a))
           (placeholderCalls (fst (signPdfBuffer L this pdfBuffer (Some (signRouteOptions query)))))
         = [(JString ''Server'', JString ''N/A'')]"
  using assms(3,4)
  by (simp add: signPdfBuffer_placeholderCalls [OF assms(1,2)] signRouteOptions_def
      destructureDefault_def getProp_def orElse_def)

section \<open>Loading the signing identity\<close>

lemma parseCertificateInfo_events [simp]:
  "fst (parseCertificateInfo env this) = [FsStat (certPath this)]"
  by (simp add: parseCertificateInfo_def)

lemma parseCertificateInfo_fields [simp]:
  "certificate (snd (parseCertificateInfo env this)) = certificate this"
  "certPath (snd (parseCertificateInfo env this)) = certPath this"
  "passphrase (snd (parseCertificateInfo env this)) = passphrase this"
  by (simp_all add: parseCertificateInfo_def split: sum.splits error.splits)

lemma constructor_events:
  "fst (PdfSigner_constructor env p pw) =
     FsRead p # (case readFileSync env p of
                   Inl e \<Rightarrow> []
                 | Inr b \<Rightarrow> [FsStat p, ConsoleLog ''Certificate loaded successfully''])"
  by (simp add: PdfSigner_constructor_def loadCertificate_def case_prod_beta split: sum.splits)

lemma constructor_fails:
  "readFileSync env p = Inl (Error msg) \<Longrightarrow>
   snd (PdfSigner_constructor env p pw) = Inl (Error (''Failed to load certificate: '' @ msg))"
  by (simp add: PdfSigner_constructor_def loadCertificate_def)

lemma constructor_succeeds:
  "readFileSync env p = Inr b \<Longrightarrow>
   snd (PdfSigner_constructor env p pw) =
     Inr (snd (parseCertificateInfo env
       \<lparr>certPath = p, passphrase = pw, certificate = Some b, certificateInfo = None\<rparr>))"
  by (simp add: PdfSigner_constructor_def loadCertificate_def case_prod_beta)

lemma constructor_fileReads: "fileReads (fst (PdfSigner_constructor env p pw)) = [p]"
  by (simp add: constructor_events split: sum.splits)

lemma initializeSigner_result:
  "snd (initializeSigner env p cp) =
     (if existsSync env p then
        (case snd (PdfSigner_constructor env p
                     (case cp of None \<Rightarrow> ''password''
                      | Some s \<Rightarrow> if s \<noteq> [] then s else ''password'')) of
           Inl e \<Rightarrow> Inl 1 | Inr s \<Rightarrow> Inr s)
      else Inl 1)"
  by (simp add: initializeSigner_def Let_def split: prod.splits sum.splits error.splits)

lemma initializeSigner_events:
  "fst (initializeSigner env p cp) =
     (if existsSync env p then
        FsExists p # fst (PdfSigner_constructor env p
                     (case cp of None \<Rightarrow> ''password''
                      | Some s \<Rightarrow> if s \<noteq> [] then s else ''password''))
          @ (case snd (PdfSigner_constructor env p
                     (case cp of None \<Rightarrow> ''password''
                      | Some s \<Rightarrow> if s \<noteq> [] then s else ''password'')) of
               Inl (Error msg) \<Rightarrow> [ConsoleError (''Failed to initialize PDF Signer: '' @ msg)]
             | Inr s \<Rightarrow> [ConsoleLog ''PDF Signer initialized successfully''])
      else [FsExists p, ConsoleError (''Certificate not found at '' @ p),
            ConsoleError ''Please generate a certificate using: npm run generate-cert''])"
  by (simp add: initializeSigner_def Let_def split: prod.splits sum.splits error.splits)

lemma initializeSigner_fileReads:
  "fileReads (fst (initializeSigner env p cp)) = (if existsSync env p then [p] else [])"
  by (simp add: initializeSigner_events constructor_fileReads split: sum.splits error.splits)

lemma startServer_result:
  "snd (startServer env p cp) =
     (case snd (initializeSigner env p cp) of Inl c \<Rightarrow> Exited c | Inr s \<Rightarrow> Listening s)"
  by (simp add: startServer_def split: prod.splits sum.splits)

lemma startServer_events: "fst (startServer env p cp) = fst (initializeSigner env p cp)"
  by (simp add: startServer_def split: prod.splits sum.splits)

lemma signPdfBuffer_fileReads:
  "fileReads (sysCalls (fst (signPdfBuffer L this pdfBuffer opts))) = []"
  by (simp add: signPdfBuffer_def Let_def split: sum.splits)

text \<open>
  Claim C6. The constructor reads the certificate file exactly once, whether or not the
  read succeeds; start-up constructs the signer at most once, and signing a buffer reads
  no file. If the file cannot be read, the constructor throws the error
  \<open>Failed to load certificate: ...\<close> and the process exits with code 1 instead of
  listening; a server that listens holds the octets that were read at start-up.
\<close>

theorem identity_loaded_once_at_construction:
  "fileReads (fst (PdfSigner_constructor env p pw)) = [p]
   \<and> fileReads (fst (startServer env p cp)) = (if existsSync env p then [p] else [])
   \<and> fileReads (sysCalls (fst (signPdfBuffer L this pdfBuffer opts))) = []
   \<and> (readFileSync env p = Inl (Error msg) \<longrightarrow>
        snd (PdfSigner_constructor env p pw) = Inl (Error (''Failed to load certificate: '' @ msg))
        \<and> snd (startServer env p cp) = Exited 1)
   \<and> (snd (startServer env p cp) = Listening this' \<longrightarrow>
        (\<exists>b. readFileSync env p = Inr b \<and> certificate this' = Some b))"
proof (intro conjI impI)
  show "fileReads (fst (PdfSigner_constructor env p pw)) = [p]"
    by (rule constructor_fileReads)
  show "fileReads (fst (startServer env p cp)) = (if existsSync env p then [p] else [])"
    by (simp only: startServer_events initializeSigner_fileReads)
  show "fileReads (sysCalls (fst (signPdfBuffer L this pdfBuffer opts))) = []"
    by (rule signPdfBuffer_fileReads)
next
  assume r: "readFileSync env p = Inl (Error msg)"
  then show "snd (PdfSigner_constructor env p pw) =
      Inl (Error (''Failed to load certificate: '' @ msg))"
    by (rule constructor_fails)
  show "snd (startServer env p cp) = Exited 1"
    by (simp add: startServer_result initializeSigner_result constructor_fails [OF r])
next
  assume l: "snd (startServer env p cp) = Listening this'"
  show "\<exists>b. readFileSync env p = Inr b \<and> certificate this' = Some b"
  proof (cases "readFileSync env p")
    case (Inl e)
    obtain msg where "e = Error msg"
      by (cases e)
    with Inl l show ?thesis
      by (simp add: startServer_result initializeSigner_result constructor_fails split: if_splits)
  next
    case (Inr b)
    with l show ?thesis
      by (auto simp: startServer_result initializeSigner_result constructor_succeeds
          split: if_splits)
  qed
qed

theorem identity_loaded_once_at_construction_witness:
  "readFileSync unreadableFs ''certs/signing-cert.p12'' = Inl (Error ''EACCES: permission denied'')
   \<and> snd (PdfSigner_constructor unreadableFs ''certs/signing-cert.p12'' ''password'') =
       Inl (Error ''Failed to load certificate: EACCES: permission denied'')
   \<and> snd (startServer unreadableFs ''certs/signing-cert.p12'' None) = Exited 1
   \<and> fileReads (fst (startServer (testFs ''certs/signing-cert.p12'' [0x30, 0x82] 1700000000000)
         ''certs/signing-cert.p12'' None)) = [''certs/signing-cert.p12'']
   \<and> (\<exists>this'. snd (startServer (testFs ''certs/signing-cert.p12'' [0x30, 0x82] 1700000000000)
         ''certs/signing-cert.p12'' None) = Listening this'
       \<and> certificate this' = Some [0x30, 0x82])"
proof -
  let ?p = "''certs/signing-cert.p12''"
  let ?env = "testFs ?p [0x30, 0x82] 1700000000000"
  have r: "readFileSync unreadableFs ?p = Inl (Error ''EACCES: permission denied'')"
    by (simp add: unreadableFs_def)
  have 1: "snd (PdfSigner_constructor unreadableFs ?p ''password'') =
       Inl (Error ''Failed to load certificate: EACCES: permission denied'')"
    and 2: "snd (startServer unreadableFs ?p None) = Exited 1"
    using identity_loaded_once_at_construction
      [of unreadableFs ?p "''password''" None echoLibs testSigner pdfMagic None
        "''EACCES: permission denied''" testSigner] r
    by simp_all
  have e: "existsSync ?env ?p" and rd: "readFileSync ?env ?p = Inr [0x30, 0x82]"
    by (simp_all add: testFs_def)
  obtain this' where l: "snd (startServer ?env ?p None) = Listening this'"
    by (simp add: startServer_result initializeSigner_result e constructor_succeeds [OF rd])
  have 3: "fileReads (fst (startServer ?env ?p None)) = [?p]"
    and 4: "certificate this' = Some [0x30, 0x82]"
    using identity_loaded_once_at_construction
      [of ?env ?p "''password''" None echoLibs testSigner pdfMagic None "''ENOENT''" this']
      e rd l
    by simp_all
  from r 1 2 3 4 l show ?thesis
    by blast
qed

section \<open>Certificate information\<close>

lemma getCertificateInfo_constructed:
  assumes "snd (PdfSigner_constructor env p pw) = Inr this"
  shows "getCertificateInfo this =
     (case statSync_mtime env p of
        Inr mtime \<Rightarrow>
          [(''loaded'', JBool True), (''path'', JString p), (''timestamp'', JDate mtime),
           (''algorithm'', JString ''PKCS#7/CMS (Detached)''), (''hasPrivateKey'', JBool True),
           (''message'', JString ''Certificate is loaded and ready for signing'')]
      | Inl (Error msg) \<Rightarrow>
          [(''loaded'', JBool False), (''error'', JString msg),
           (''message'', JString ''Certificate is loaded and ready for signing'')])"
proof (cases "readFileSync env p")
  case (Inl e)
  obtain msg where "e = Error msg"
    by (cases e)
  with Inl assms show ?thesis
    by (simp add: constructor_fails)
next
  case (Inr b)
  with assms have "this = snd (parseCertificateInfo env
       \<lparr>certPath = p, passphrase = pw, certificate = Some b, certificateInfo = None\<rparr>)"
    by (simp add: constructor_succeeds)
  then show ?thesis
    by (simp add: getCertificateInfo_def parseCertificateInfo_def
        split: sum.splits error.splits)
qed

text \<open>
  Claim C8. The result of \<open>getCertificateInfo\<close> is computed from the field
  \<open>certificateInfo\<close> alone: changing the certificate octets and the passphrase of a signer
  does not change it. For a constructed signer it is determined by the certificate path and
  the file's modification time (or the message of the failed \<open>statSync\<close>): two signers
  constructed from files of different content, with different passphrases, report the same,
  and the properties reported are among \<open>loaded\<close>, \<open>path\<close>, \<open>timestamp\<close>,
  \<open>algorithm\<close>, \<open>hasPrivateKey\<close>, \<open>error\<close> and \<open>message\<close>.
\<close>

theorem getCertificateInfo_independent_of_key:
  "getCertificateInfo (this\<lparr>certificate := key, passphrase := pw\<rparr>) = getCertificateInfo this
   \<and> (statSync_mtime env' p = statSync_mtime env p
        \<and> snd (PdfSigner_constructor env p pw1) = Inr this1
        \<and> snd (PdfSigner_constructor env' p pw2) = Inr this2
      \<longrightarrow> getCertificateInfo this1 = getCertificateInfo this2
          \<and> fst ` set (getCertificateInfo this1) \<subseteq>
              {''loaded'', ''path'', ''timestamp'', ''algorithm'', ''hasPrivateKey'',
               ''error'', ''message''})"
proof (intro conjI impI)
  show "getCertificateInfo (this\<lparr>certificate := key, passphrase := pw\<rparr>) =
      getCertificateInfo this"
    by (simp add: getCertificateInfo_def)
next
  assume h: "statSync_mtime env' p = statSync_mtime env p
        \<and> snd (PdfSigner_constructor env p pw1) = Inr this1
        \<and> snd (PdfSigner_constructor env' p pw2) = Inr this2"
  then have 1: "snd (PdfSigner_constructor env p pw1) = Inr this1"
    and 2: "snd (PdfSigner_constructor env' p pw2) = Inr this2"
    and s: "statSync_mtime env' p = statSync_mtime env p"
    by simp_all
  show "getCertificateInfo this1 = getCertificateInfo this2"
    by (simp add: getCertificateInfo_constructed [OF 1] getCertificateInfo_constructed [OF 2] s)
  show "fst ` set (getCertificateInfo this1) \<subseteq>
              {''loaded'', ''path'', ''timestamp'', ''algorithm'', ''hasPrivateKey'',
               ''error'', ''message''}"
    by (auto simp: getCertificateInfo_constructed [OF 1] split: sum.splits error.splits)
qed

theorem getCertificateInfo_independent_of_key_witness:
  "(\<exists>this1 this2.
      snd (PdfSigner_constructor (testFs ''c.p12'' [0x30, 0x82] 1700000000000) ''c.p12'' ''password'')
        = Inr this1
      \<and> snd (PdfSigner_constructor (testFs ''c.p12'' [0x31, 0x07, 0x55] 1700000000000) ''c.p12''
               ''secret'') = Inr this2
      \<and> certificate this1 \<noteq> certificate this2 \<and> passphrase this1 \<noteq> passphrase this2
      \<and> getCertificateInfo this1 = getCertificateInfo this2
      \<and> getCertificateInfo this1 =
          [(''loaded'', JBool True), (''path'', JString ''c.p12''),
           (''timestamp'', JDate 1700000000000),
           (''algorithm'', JString ''PKCS#7/CMS (Detached)''), (''hasPrivateKey'', JBool True),
           (''message'', JString ''Certificate is loaded and ready for signing'')])"
proof -
  let ?e1 = "testFs ''c.p12'' [0x30, 0x82] 1700000000000"
  let ?e2 = "testFs ''c.p12'' [0x31, 0x07, 0x55] 1700000000000"
  have r1: "readFileSync ?e1 ''c.p12'' = Inr [0x30, 0x82]"
    and r2: "readFileSync ?e2 ''c.p12'' = Inr [0x31, 0x07, 0x55]"
    and s: "statSync_mtime ?e2 ''c.p12'' = statSync_mtime ?e1 ''c.p12''"
    and s1: "statSync_mtime ?e1 ''c.p12'' = Inr 1700000000000"
    by (simp_all add: testFs_def)
  obtain this1 where 1: "snd (PdfSigner_constructor ?e1 ''c.p12'' ''password'') = Inr this1"
    by (simp add: constructor_succeeds [OF r1])
  obtain this2 where 2: "snd (PdfSigner_constructor ?e2 ''c.p12'' ''secret'') = Inr this2"
    by (simp add: constructor_succeeds [OF r2])
  have c: "certificate this1 = Some [0x30, 0x82]" "certificate this2 = Some [0x31, 0x07, 0x55]"
    "passphrase this1 = ''password''" "passphrase this2 = ''secret''"
    using 1 2 by (auto simp: constructor_succeeds [OF r1] constructor_succeeds [OF r2])
  have "getCertificateInfo this1 = getCertificateInfo this2"
    using getCertificateInfo_independent_of_key
      [where this = testSigner and key = None and pw = "''secret''" and env' = ?e2
        and p = "''c.p12''" and env = ?e1 and ?pw1.0 = "''password''" and ?this1.0 = this1
        and ?pw2.0 = "''secret''" and ?this2.0 = this2] s 1 2
    by blast
  moreover have "getCertificateInfo this1 =
          [(''loaded'', JBool True), (''path'', JString ''c.p12''),
           (''timestamp'', JDate 1700000000000),
           (''algorithm'', JString ''PKCS#7/CMS (Detached)''), (''hasPrivateKey'', JBool True),
           (''message'', JString ''Certificate is loaded and ready for signing'')]"
    by (simp add: getCertificateInfo_constructed [OF 1] s1)
  ultimately show ?thesis
    using 1 2 c by auto
qed

section \<open>Reading the byte range\<close>

lemma indexOf_length: "indexOf pat xs = Some p \<Longrightarrow> p + length pat \<le> length xs"
proof (induction xs arbitrary: p)
  case Nil
  then show ?case by (auto split: if_splits)
next
  case (Cons x xs)
  then show ?case by (auto split: if_splits dest: prefix_length_le)
qed

lemma indexOf_append:
  "indexOf pat xs = Some p \<Longrightarrow> indexOf pat (xs @ ys) = Some p"
proof (induction xs arbitrary: p)
  case Nil
  then show ?case by (cases ys) (auto split: if_splits)
next
  case (Cons x xs)
  show ?case
  proof (cases "prefix pat (x # xs)")
    case True
    then have "prefix pat ((x # xs) @ ys)" by (rule prefix_prefix)
    with True Cons.prems show ?thesis by simp
  next
    case False
    with Cons.prems obtain q where q: "indexOf pat xs = Some q" "p = Suc q" by auto
    from indexOf_length [OF q(1)] have len: "length pat \<le> length xs" by simp
    have "\<not> prefix pat ((x # xs) @ ys)"
    proof
      assume "prefix pat ((x # xs) @ ys)"
      then have "prefix pat (x # xs) \<or> (\<exists>us. pat = (x # xs) @ us \<and> prefix us ys)"
        by (simp only: prefix_append)
      then consider "prefix pat (x # xs)" | us where "pat = (x # xs) @ us"
        by blast
      then show False
      proof cases
        case 1 with False show False by simp
      next
        case 2 with len show False by simp
      qed
    qed
    with Cons.IH [OF q(1)] q(2) show ?thesis by simp
  qed
qed

lemma dropWhile_append_keep:
  "dropWhile P xs \<noteq> [] \<Longrightarrow> dropWhile P (xs @ ys) = dropWhile P xs @ ys"
  by (induction xs) auto

lemma takeWhile_append_keep:
  "dropWhile P xs \<noteq> [] \<Longrightarrow> takeWhile P (xs @ ys) = takeWhile P xs"
  by (induction xs) auto

lemma integerToken_append:
  assumes "integerToken s = Some (n, t)" and "t \<noteq> []"
  shows "integerToken (s @ r) = Some (n, t @ r)"
proof -
  let ?u = "dropWhile isSpace s"
  from assms(1) have d: "takeWhile isDigit ?u \<noteq> []" and n: "n = decimal (takeWhile isDigit ?u)"
    and t: "t = dropWhile isDigit ?u"
    by (auto simp: integerToken_def Let_def split: if_splits)
  from t assms(2) have t': "dropWhile isDigit ?u \<noteq> []"
    by simp
  then have u: "?u \<noteq> []"
    by (cases ?u) simp_all
  have 1: "dropWhile isSpace (s @ r) = ?u @ r"
    by (rule dropWhile_append_keep [OF u])
  have 2: "takeWhile isDigit (?u @ r) = takeWhile isDigit ?u"
    by (rule takeWhile_append_keep [OF t'])
  have 3: "dropWhile isDigit (?u @ r) = dropWhile isDigit ?u @ r"
    by (rule dropWhile_append_keep [OF t'])
  show ?thesis
    unfolding integerToken_def Let_def 1 2 3 using d n t by simp
qed

lemma symbolToken_append:
  assumes "symbolToken c s = Some t"
  shows "symbolToken c (s @ r) = Some (t @ r)"
proof -
  from assms obtain b where b: "dropWhile isSpace s = b # t" "b = c"
    by (auto simp: symbolToken_def split: list.splits if_splits)
  then have "dropWhile isSpace s \<noteq> []"
    by (simp del: dropWhile_eq_Nil_conv)
  then have "dropWhile isSpace (s @ r) = dropWhile isSpace s @ r"
    by (rule dropWhile_append_keep)
  with b show ?thesis
    by (simp add: symbolToken_def)
qed

lemma integerToken_None_Nil [simp]: "integerToken [] = None"
  by (simp add: integerToken_def)

lemma symbolToken_None_Nil [simp]: "symbolToken c [] = None"
  by (simp add: symbolToken_def)

text \<open>
  The entry is read from the bytes up to its closing bracket: what follows them does not
  matter.
\<close>

lemma parseByteRange_append:
  assumes "parseByteRange pre = Some r"
  shows "parseByteRange (pre @ rest) = Some r"
proof -
  from assms obtain p where p: "indexOf (ascii ''/ByteRange'') pre = Some p"
    by (auto simp: parseByteRange_def split: option.splits)
  with assms obtain s0 where s0: "symbolToken 0x5B (drop (p + 10) pre) = Some s0"
    by (auto simp: parseByteRange_def split: option.splits)
  with assms p obtain a s1 where s1: "integerToken s0 = Some (a, s1)"
    by (auto simp: parseByteRange_def split: option.splits)
  with assms p s0 obtain b s2 where s2: "integerToken s1 = Some (b, s2)"
    by (auto simp: parseByteRange_def split: option.splits)
  with assms p s0 s1 obtain c s3 where s3: "integerToken s2 = Some (c, s3)"
    by (auto simp: parseByteRange_def split: option.splits)
  with assms p s0 s1 s2 obtain d s4 where s4: "integerToken s3 = Some (d, s4)"
    by (auto simp: parseByteRange_def split: option.splits)
  with assms p s0 s1 s2 s3 obtain s5 where s5: "symbolToken 0x5D s4 = Some s5"
    and r: "r = (a, b, c, d)"
    by (auto simp: parseByteRange_def split: option.splits)
  have ne: "s1 \<noteq> []" "s2 \<noteq> []" "s3 \<noteq> []" "s4 \<noteq> []"
    using s2 s3 s4 s5 by auto
  have len: "p + 10 \<le> length pre"
    using indexOf_length [OF p] by (simp add: ascii_def)
  have "indexOf (ascii ''/ByteRange'') (pre @ rest) = Some p"
    by (rule indexOf_append [OF p])
  moreover have "drop (p + 10) (pre @ rest) = drop (p + 10) pre @ rest"
    using len by simp
  ultimately show ?thesis
    using symbolToken_append [OF s0, of rest]
      integerToken_append [OF s1 ne(1), of rest] integerToken_append [OF s2 ne(2), of rest]
      integerToken_append [OF s3 ne(3), of rest] integerToken_append [OF s4 ne(4), of rest]
      symbolToken_append [OF s5, of rest] r
    by (simp add: parseByteRange_def)
qed

section \<open>The placeholder preparer\<close>

lemma ascii_append: "ascii (s @ t) = ascii s @ ascii t"
  by (simp add: ascii_def)

lemma length_ascii [simp]: "length (ascii s) = length s"
  by (simp add: ascii_def)

lemma indexOf_self_append: "indexOf pat (pat @ ys) = Some 0"
proof (cases "pat @ ys")
  case Nil
  then show ?thesis by simp
next
  case (Cons a list)
  have "prefix pat (pat @ ys)"
    by simp
  with Cons show ?thesis
    by simp
qed

lemma prefix_append_sep:
  assumes "c \<notin> set pat"
  shows "prefix pat (xs @ c # ys) \<longleftrightarrow> prefix pat xs"
proof
  assume "prefix pat (xs @ c # ys)"
  then have "prefix pat xs \<or> (\<exists>us. pat = xs @ us \<and> prefix us (c # ys))"
    by (simp only: prefix_append)
  then show "prefix pat xs"
  proof
    assume "\<exists>us. pat = xs @ us \<and> prefix us (c # ys)"
    then obtain us where us: "pat = xs @ us" "prefix us (c # ys)"
      by blast
    with assms have "us = []"
      by (cases us) auto
    with us show "prefix pat xs"
      by simp
  qed
next
  assume "prefix pat xs"
  then show "prefix pat (xs @ c # ys)"
    by (rule prefix_prefix)
qed

lemma indexOf_append_sep:
  assumes "c \<notin> set pat"
  shows "indexOf pat (xs @ c # ys) =
     (case indexOf pat xs of
        Some p \<Rightarrow> Some p
      | None \<Rightarrow> map_option (\<lambda>q. Suc (length xs + q)) (indexOf pat ys))"
proof (induction xs)
  case Nil
  from assms have "prefix pat (c # ys) \<longleftrightarrow> pat = []"
    by (cases pat) auto
  then show ?case
    by (auto simp: option.map_comp comp_def)
next
  case (Cons x xs)
  have "prefix pat ((x # xs) @ c # ys) \<longleftrightarrow> prefix pat (x # xs)"
    using assms by (rule prefix_append_sep)
  with Cons show ?case
    by (auto simp: option.map_comp comp_def split: option.splits)
qed

lemma length_decimalDigits [simp]: "length (decimalDigits k n) = k"
  by (induction k n rule: decimalDigits.induct) simp_all

lemma unat_digit: "m < 10 \<Longrightarrow> unat (48 + word_of_nat m :: byte) = 48 + m"
proof -
  assume m: "m < 10"
  have "unat (of_nat (48 + m) :: byte) = (48 + m) mod 2 ^ LENGTH(8)"
    by (simp only: unat_of_nat)
  with m show ?thesis
    by simp
qed

lemma isDigit_digit: "m < 10 \<Longrightarrow> isDigit (48 + word_of_nat m)"
  by (simp add: isDigit_def word_le_nat_alt unat_digit)

lemma decimalDigits_isDigit: "b \<in> set (decimalDigits k n) \<Longrightarrow> isDigit b"
  by (induction k n rule: decimalDigits.induct) (auto simp: isDigit_digit)

lemma decimal_snoc: "decimal (ds @ [d]) = 10 * decimal ds + (unat d - 48)"
  by (simp add: decimal_def)

lemma decimal_decimalDigits: "decimal (decimalDigits k n) = n mod 10 ^ k"
proof (induction k n rule: decimalDigits.induct)
  case (1 n)
  then show ?case by (simp add: decimal_def)
next
  case (2 k n)
  then show ?case
    by (simp add: decimal_snoc unat_digit mod_mult2_eq)
qed

lemma isDigit_not_isSpace: "isDigit b \<Longrightarrow> \<not> isSpace b"
  by (auto simp: isDigit_def isSpace_def)

lemma integerToken_digits:
  assumes "\<not> isDigit c"
  shows "integerToken (decimalDigits (Suc k) n @ c # rest) = Some (n mod 10 ^ Suc k, c # rest)"
proof -
  let ?ds = "decimalDigits (Suc k) n"
  obtain x xs where ds: "?ds = x # xs"
    by (cases ?ds) (use length_decimalDigits [of "Suc k" n] in auto)
  then have "x \<in> set ?ds"
    by simp
  then have "isDigit x"
    by (rule decimalDigits_isDigit)
  then have "\<not> isSpace x"
    by (rule isDigit_not_isSpace)
  then have 1: "dropWhile isSpace (?ds @ c # rest) = ?ds @ c # rest"
    unfolding ds by simp
  have all: "\<And>b. b \<in> set ?ds \<Longrightarrow> isDigit b"
    by (rule decimalDigits_isDigit)
  have 2: "takeWhile isDigit (?ds @ c # rest) = ?ds"
    using assms by (simp only: takeWhile_append2 [OF all]) simp
  have 3: "dropWhile isDigit (?ds @ c # rest) = c # rest"
    using assms by (simp only: dropWhile_append2 [OF all]) simp
  show ?thesis
    unfolding integerToken_def Let_def 1 2 3
    by (simp only: decimal_decimalDigits) (simp only: ds list.distinct if_False)
qed

lemma integerToken_space: "integerToken (0x20 # s) = integerToken s"
  by (simp add: integerToken_def isSpace_def)

lemma symbolToken_space: "symbolToken c (0x20 # s) = symbolToken c s"
  by (simp add: symbolToken_def isSpace_def)

lemma symbolToken_here: "c \<noteq> 0x20 \<Longrightarrow> symbolToken c (c # s) = Some s"
  by (simp add: symbolToken_def isSpace_def)

lemma byteRangeEntry_split:
  "byteRangeEntry (a, b, c, d) =
     ascii ''/ByteRange''
     @ 0x20 # 0x5B # decimalDigits 10 a
     @ 0x20 # decimalDigits 10 b
     @ 0x20 # decimalDigits 10 c
     @ 0x20 # decimalDigits 10 d @ [0x5D]"
  by (simp add: byteRangeEntry_def ascii_def)

lemma length_byteRangeEntry [simp]: "length (byteRangeEntry r) = 56"
  by (cases r) (simp add: byteRangeEntry_def)

text \<open>The entry is read back where it was written, if no entry precedes it.\<close>

lemma parseByteRange_entry:
  assumes none: "indexOf (ascii ''/ByteRange'') xs = None"
    and bounds: "a < 10 ^ 10" "b < 10 ^ 10" "c < 10 ^ 10" "d < 10 ^ 10"
  shows "parseByteRange (xs @ 0x20 # byteRangeEntry (a, b, c, d) @ rest) = Some (a, b, c, d)"
proof -
  let ?pat = "ascii ''/ByteRange''"
  let ?t4 = "decimalDigits 10 d @ 0x5D # rest"
  let ?t3 = "decimalDigits 10 c @ 0x20 # ?t4"
  let ?t2 = "decimalDigits 10 b @ 0x20 # ?t3"
  let ?t1 = "decimalDigits 10 a @ 0x20 # ?t2"
  have doc: "xs @ 0x20 # byteRangeEntry (a, b, c, d) @ rest = xs @ 0x20 # (?pat @ 0x20 # 0x5B # ?t1)"
    by (simp add: byteRangeEntry_split)
  have sep: "(0x20 :: byte) \<notin> set ?pat"
    by (simp add: ascii_def)
  have idx: "indexOf ?pat (xs @ 0x20 # (?pat @ 0x20 # 0x5B # ?t1)) = Some (Suc (length xs))"
    by (simp add: indexOf_append_sep [OF sep] none indexOf_self_append)
  have drp: "drop (Suc (length xs) + 10) (xs @ 0x20 # (?pat @ 0x20 # 0x5B # ?t1))
      = 0x20 # 0x5B # ?t1"
    by simp
  have nd: "\<not> isDigit 0x20" "\<not> isDigit 0x5D"
    by (simp_all add: isDigit_def)
  have ten: "10 = Suc 9"
    by simp
  have t0: "symbolToken 0x5B (0x20 # 0x5B # ?t1) = Some ?t1"
    by (simp add: symbolToken_space symbolToken_here)
  have t1: "integerToken ?t1 = Some (a, 0x20 # ?t2)"
    using integerToken_digits [OF nd(1), of 9 a ?t2] bounds(1) by (simp add: ten [symmetric])
  have t2: "integerToken (0x20 # ?t2) = Some (b, 0x20 # ?t3)"
    using integerToken_digits [OF nd(1), of 9 b ?t3] bounds(2)
    by (simp add: ten [symmetric] integerToken_space)
  have t3: "integerToken (0x20 # ?t3) = Some (c, 0x20 # ?t4)"
    using integerToken_digits [OF nd(1), of 9 c ?t4] bounds(3)
    by (simp add: ten [symmetric] integerToken_space)
  have t4: "integerToken (0x20 # ?t4) = Some (d, 0x5D # rest)"
    using integerToken_digits [OF nd(2), of 9 d rest] bounds(4)
    by (simp add: ten [symmetric] integerToken_space)
  have t5: "symbolToken 0x5D (0x5D # rest) = Some rest"
    by (simp add: symbolToken_here)
  show ?thesis
    unfolding doc parseByteRange_def idx
    by (simp only: option.case drp t0 t1 t2 t3 t4 t5 prod.case)
qed

lemma length_signatureField:
  "length (signatureField args r) = length (signatureField args (0, 0, 0, 0))"
  by (simp add: signatureField_def)

lemma savePrepared_Inr:
  assumes "savePrepared D pdf args = Inr mid"
  obtains start after where
    "start = length (serializeBefore D pdf) + length signatureFieldOpen + 56 + length contentsOpen"
    "mid = serializeBefore D pdf
           @ signatureField args
               (0, start, start + signatureLength args,
                length mid - (start + signatureLength args))
           @ after"
    "length mid < 10 ^ 10"
proof -
  let ?before = "serializeBefore D pdf"
  let ?f0 = "signatureField args (0, 0, 0, 0)"
  let ?after = "serializeAfter D pdf (length ?before) (length ?f0)"
  let ?ser = "?before @ ?f0 @ ?after"
  let ?start = "length ?before + length signatureFieldOpen + 56 + length contentsOpen"
  let ?limit = "?start + signatureLength args"
  from assms have small: "length ?ser < 10 ^ 10"
    and mid: "mid = take (length ?before + length signatureFieldOpen) ?ser
                @ byteRangeEntry (0, ?start, ?limit, length ?ser - ?limit)
                @ drop (length ?before + length signatureFieldOpen + 56) ?ser"
    by (auto simp: savePrepared_def Let_def split: if_splits)
  have tk: "take (length ?before + length signatureFieldOpen) ?ser = ?before @ signatureFieldOpen"
    by (simp add: signatureField_def)
  have dr: "drop (length ?before + length signatureFieldOpen + 56) ?ser
      = contentsOpen @ replicate (signatureLength args) 0x30 @ signatureFieldClose args @ ?after"
    by (simp add: signatureField_def)
  have len: "length mid = length ?ser"
    by (simp add: mid tk dr signatureField_def)
  have "mid = ?before @ signatureField args (0, ?start, ?limit, length mid - ?limit) @ ?after"
    by (simp add: len) (simp add: mid tk dr signatureField_def)
  moreover have "length mid < 10 ^ 10"
    using small len by simp
  ultimately show thesis
    using that [of ?start ?after] by simp
qed

lemma no_entry_in_fieldOpen:
  assumes "indexOf (ascii ''/ByteRange'') before = None"
  shows "indexOf (ascii ''/ByteRange'') (before @ 0x0A # ascii ''<< /Type /Sig'') = None"
proof -
  have sep: "(0x0A :: byte) \<notin> set (ascii ''/ByteRange'')"
    by (simp add: ascii_def)
  have "indexOf (ascii ''/ByteRange'') (ascii ''<< /Type /Sig'') = None"
    by code_simp
  with assms show ?thesis
    by (simp add: indexOf_append_sep [OF sep])
qed

lemma signatureFieldOpen_split:
  "signatureFieldOpen = (0x0A # ascii ''<< /Type /Sig'') @ [0x20]"
  by (simp add: signatureFieldOpen_def ascii_def)

text \<open>What the preparer saves is a prepared document, if the document carried no entry.\<close>

lemma savePrepared_prepared:
  assumes saved: "savePrepared D pdf args = Inr mid"
    and none: "indexOf (ascii ''/ByteRange'') (serializeBefore D pdf) = None"
  shows "prepared (signatureLength args) mid \<and> byteRangeBeforeContents mid"
proof -
  let ?before = "serializeBefore D pdf"
  let ?cap = "signatureLength args"
  from saved obtain start after where
    start: "start = length ?before + length signatureFieldOpen + 56 + length contentsOpen"
    and mid: "mid = ?before
           @ signatureField args (0, start, start + ?cap, length mid - (start + ?cap))
           @ after"
    and small: "length mid < 10 ^ 10"
    by (rule savePrepared_Inr)
  let ?r = "(0, start, start + ?cap, length mid - (start + ?cap))"
  let ?xs = "?before @ 0x0A # ascii ''<< /Type /Sig''"
  let ?tail = "replicate ?cap 0x30 @ signatureFieldClose args @ after"
  have shape: "mid = ?xs @ 0x20 # byteRangeEntry ?r @ (contentsOpen @ ?tail)"
    by (subst mid) (simp add: signatureField_def signatureFieldOpen_split)
  have lim: "start + ?cap \<le> length mid"
    by (subst shape) (simp add: start signatureFieldOpen_split)
  have nx: "indexOf (ascii ''/ByteRange'') ?xs = None"
    using none by (rule no_entry_in_fieldOpen)
  have bounds: "(0::nat) < 10 ^ 10" "start < 10 ^ 10" "start + ?cap < 10 ^ 10"
    "length mid - (start + ?cap) < 10 ^ 10"
    using small lim by simp_all
  have entry: "parseByteRange (?xs @ 0x20 # byteRangeEntry ?r @ rest) = Some ?r" for rest
    by (rule parseByteRange_entry [OF nx bounds])
  have p: "parseByteRange mid = Some ?r"
    by (subst shape) (rule entry)
  have 1: "prepared ?cap mid"
    using lim by (simp add: prepared_def p)
  have cs: "contentsStart mid = start"
    by (simp add: contentsStart_def p)
  have ln: "length (?xs @ 0x20 # byteRangeEntry ?r @ contentsOpen) = start"
    by (simp add: start signatureFieldOpen_split)
  have "mid = (?xs @ 0x20 # byteRangeEntry ?r @ contentsOpen) @ ?tail"
    by (subst shape) simp
  then have "take start mid = ?xs @ 0x20 # byteRangeEntry ?r @ contentsOpen"
    using ln by (metis append_eq_conv_conj)
  then have "parseByteRange (take start mid) = Some ?r"
    by (simp only: entry)
  then have 2: "byteRangeBeforeContents mid"
    by (simp add: byteRangeBeforeContents_def cs p)
  from 1 2 show ?thesis
    by simp
qed

section \<open>The detached signer\<close>

lemma length_hexEncode [simp]: "length (hexEncode bs) = 2 * length bs"
  by (induction bs) (simp_all add: hexEncode_def)

lemma preparedE:
  assumes "prepared capacity doc"
  obtains length1 where
    "parseByteRange doc = Some (0, length1, length1 + capacity, length doc - (length1 + capacity))"
    "length1 + capacity \<le> length doc"
    "contentsStart doc = length1" "contentsEnd doc = length1 + capacity"
  using assms
  by (auto simp: prepared_def contentsStart_def contentsEnd_def split: option.splits)

text \<open>The outcome of signing a prepared document.\<close>

lemma sign_prepared:
  assumes "prepared capacity doc"
  shows "sign C doc identity =
     (case openIdentity C (fst identity) (snd identity) of
        None \<Rightarrow> Inl SigningFailure
      | Some (key, cert) \<Rightarrow>
          let hex = hexEncode (encodeContainer C (detachedContainer C key cert (signedBytes doc)))
          in if capacity < length hex then Inl SigningFailure
             else Inr (take (contentsStart doc) doc @ hex @ replicate (capacity - length hex) 0x30
                       @ drop (contentsStart doc + capacity) doc))"
proof -
  from assms obtain l1 where
    "parseByteRange doc = Some (0, l1, l1 + capacity, length doc - (l1 + capacity))"
    "contentsStart doc = l1" "contentsEnd doc = l1 + capacity"
    by (rule preparedE)
  then show ?thesis
    by (simp add: sign_def Let_def split: option.splits)
qed

lemma sign_prepared_Inr:
  assumes p: "prepared capacity doc"
    and s: "sign C doc identity = Inr final"
  obtains key cert where
    "openIdentity C (fst identity) (snd identity) = Some (key, cert)"
    "length (hexEncode (encodeContainer C (detachedContainer C key cert (signedBytes doc))))
       \<le> capacity"
    "final = take (contentsStart doc) doc
       @ hexEncode (encodeContainer C (detachedContainer C key cert (signedBytes doc)))
       @ replicate (capacity - length (hexEncode (encodeContainer C
            (detachedContainer C key cert (signedBytes doc))))) 0x30
       @ drop (contentsStart doc + capacity) doc"
  using s by (auto simp: sign_prepared [OF p] Let_def split: option.splits if_splits)


lemma sampleHead_parse: "parseByteRange sampleHead = Some (0, 42, 58, 6)"
  by code_simp

lemma sampleHead_length: "length sampleHead = 42"
  by code_simp

lemma sampleIntermediate_parse: "parseByteRange sampleIntermediate = Some (0, 42, 58, 6)"
  unfolding sampleIntermediate_def by (rule parseByteRange_append [OF sampleHead_parse])

lemma sampleIntermediate_prepared: "prepared 16 sampleIntermediate"
  by (simp add: prepared_def sampleIntermediate_parse)
     (simp add: sampleIntermediate_def sampleHead_length ascii_def)

lemma sampleIntermediate_signed:
  "sign toyCryptography sampleIntermediate (Some [0x30, 0x82], ''password'') =
     Inr sampleSigned"
  by code_simp


text \<open>What a successful run of \<open>signPdfBuffer\<close> did.\<close>

lemma signPdfBuffer_success:
  assumes "signPdfBuffer L this pdfBuffer opts = (evs, Inr signedPdfBytes)"
  obtains pdfDoc args pdfDoc' mid p12Signer where
    "isPdfValid pdfBuffer"
    "PDFDocument_load L pdfBuffer = Inr pdfDoc"
    "pdflibAddPlaceholder L pdfDoc args = Inr pdfDoc'"
    "PDFDocument_save L pdfDoc' = Inr mid"
    "P12Signer_new L (certificate this) (passphrase this) = Inr p12Signer"
    "SignPdf_sign L mid p12Signer = Inr signedPdfBytes"
    "evs = [PdfLoad pdfBuffer, AddPlaceholder pdfDoc args, PdfSave pdfDoc',
            NewP12Signer (certificate this) (passphrase this), Sign mid p12Signer,
            Sys (ConsoleLog ''PDF buffer signed successfully'')]"
proof -
  from assms have f: "fst (signPdfBuffer L this pdfBuffer opts) = evs"
    and r: "snd (signPdfBuffer L this pdfBuffer opts) = Inr signedPdfBytes"
    by simp_all
  from r have v: "isPdfValid pdfBuffer"
    by (auto simp: signPdfBuffer_def Let_def split: if_splits)
  from r v obtain pdfDoc where 1: "PDFDocument_load L pdfBuffer = Inr pdfDoc"
    by (cases "PDFDocument_load L pdfBuffer")
       (auto simp: signPdfBuffer_def Let_def split: error.splits)
  define args where "args =
     \<lparr>reason = orElse (getProp (case opts of None \<Rightarrow> [] | Some obj \<Rightarrow> obj) ''reason'')
                (JString ''Document signed by server''),
      location = orElse (getProp (case opts of None \<Rightarrow> [] | Some obj \<Rightarrow> obj) ''location'')
                (JString ''Server''),
      contactInfo = orElse (getProp (case opts of None \<Rightarrow> [] | Some obj \<Rightarrow> obj) ''contact'')
                (JString ''N/A''),
      name = JString ''PDF Signing Server'',
      signatureLength = 8192\<rparr>"
  from r v 1 obtain pdfDoc' where 2: "pdflibAddPlaceholder L pdfDoc args = Inr pdfDoc'"
    by (cases "pdflibAddPlaceholder L pdfDoc args")
       (auto simp: signPdfBuffer_def Let_def args_def split: error.splits)
  from r v 1 2 obtain mid where 3: "PDFDocument_save L pdfDoc' = Inr mid"
    by (cases "PDFDocument_save L pdfDoc'")
       (auto simp: signPdfBuffer_def Let_def args_def split: error.splits)
  from r v 1 2 3 obtain p12Signer where
    4: "P12Signer_new L (certificate this) (passphrase this) = Inr p12Signer"
    by (cases "P12Signer_new L (certificate this) (passphrase this)")
       (auto simp: signPdfBuffer_def Let_def args_def split: error.splits)
  from r v 1 2 3 4 have 5: "SignPdf_sign L mid p12Signer = Inr signedPdfBytes"
    by (cases "SignPdf_sign L mid p12Signer")
       (auto simp: signPdfBuffer_def Let_def args_def split: error.splits)
  from f v 1 2 3 4 5 have "evs = [PdfLoad pdfBuffer, AddPlaceholder pdfDoc args, PdfSave pdfDoc',
            NewP12Signer (certificate this) (passphrase this), Sign mid p12Signer,
            Sys (ConsoleLog ''PDF buffer signed successfully'')]"
    by (auto simp: signPdfBuffer_def Let_def args_def)
  with v 1 2 3 4 5 show thesis
    by (rule that)
qed

text \<open>The buffer returned is the one the signer returned for the saved bytes.\<close>

lemma signPdfBuffer_returns_signer_output:
  assumes "signPdfBuffer L this pdfBuffer opts = (evs, Inr signedPdfBytes)"
  shows "\<exists>mid p12Signer. Sign mid p12Signer \<in> set evs
           \<and> SignPdf_sign L mid p12Signer = Inr signedPdfBytes"
  using assms by (rule signPdfBuffer_success) auto

lemma signThrowing_Inr: "signThrowing C b s = Inr out \<longleftrightarrow> sign C b s = Inr out"
  by (simp add: signThrowing_def split: sum.splits)

lemma placeholder_signatureLength:
  assumes "a \<in> set (placeholderCalls (fst (signPdfBuffer L this pdfBuffer opts)))"
  shows "signatureLength a = 8192"
proof (cases "isPdfValid pdfBuffer")
  case False
  with assms show ?thesis
    by (simp add: signPdfBuffer_no_placeholder)
next
  case valid: True
  show ?thesis
  proof (cases "PDFDocument_load L pdfBuffer")
    case (Inl e)
    with assms show ?thesis
      by (simp add: signPdfBuffer_no_placeholder)
  next
    case (Inr d)
    with assms show ?thesis
      by (auto simp: signPdfBuffer_placeholderCalls [OF valid Inr])
  qed
qed

lemma sign_round_trip:
  assumes p: "prepared capacity mid"
    and b: "byteRangeBeforeContents mid"
    and s: "sign C mid identity = Inr final"
  obtains byteRange key cert where
    "openIdentity C (fst identity) (snd identity) = Some (key, cert)"
    "parseByteRange final = Some byteRange"
    "signedBytes final = signedBytes mid"
    "contentsBytes final =
       hexEncode (encodeContainer C (detachedContainer C key cert (signedBytes mid)))
       @ replicate (capacity - length (hexEncode (encodeContainer C
                      (detachedContainer C key cert (signedBytes mid))))) 0x30"
proof -
  from p obtain l1 where
    pr: "parseByteRange mid = Some (0, l1, l1 + capacity, length mid - (l1 + capacity))"
    and le: "l1 + capacity \<le> length mid"
    and cs: "contentsStart mid = l1" and ce: "contentsEnd mid = l1 + capacity"
    by (rule preparedE)
  from p s obtain key cert where
    k: "openIdentity C (fst identity) (snd identity) = Some (key, cert)"
    and fit: "length (hexEncode (encodeContainer C (detachedContainer C key cert (signedBytes mid))))
       \<le> capacity"
    and final: "final = take (contentsStart mid) mid
       @ hexEncode (encodeContainer C (detachedContainer C key cert (signedBytes mid)))
       @ replicate (capacity - length (hexEncode (encodeContainer C
            (detachedContainer C key cert (signedBytes mid))))) 0x30
       @ drop (contentsStart mid + capacity) mid"
    by (rule sign_prepared_Inr)
  define hex where
    "hex = hexEncode (encodeContainer C (detachedContainer C key cert (signedBytes mid)))"
  note fit = fit [folded hex_def] and final = final [folded hex_def]
  from b pr cs have "parseByteRange (take l1 mid) =
      Some (0, l1, l1 + capacity, length mid - (l1 + capacity))"
    by (simp add: byteRangeBeforeContents_def)
  then have 1: "parseByteRange final =
      Some (0, l1, l1 + capacity, length mid - (l1 + capacity))"
    unfolding final cs by (rule parseByteRange_append)
  have "take capacity (drop l1 final) = hex @ replicate (capacity - length hex) 0x30"
    using le fit by (simp add: final cs)
  then have 2: "contentsBytes final = hex @ replicate (capacity - length hex) 0x30"
    by (simp add: contentsBytes_def contentsStart_def contentsEnd_def 1)
  have tk: "take l1 final = take l1 mid"
    using le by (simp add: final cs)
  have dr: "drop (l1 + capacity) final = drop (l1 + capacity) mid"
    using le fit by (simp add: final cs)
  have 3: "signedBytes final = signedBytes mid"
    by (simp add: signedBytes_def 1 pr tk dr)
  from k 1 3 2 show thesis
    unfolding hex_def by (rule that)
qed

lemma signPdfBuffer_succeeds:
  assumes "isPdfValid pdfBuffer"
    and "PDFDocument_load L pdfBuffer = Inr pdfDoc"
    and "placeholderCalls (fst (signPdfBuffer L this pdfBuffer opts)) = [args]"
    and "pdflibAddPlaceholder L pdfDoc args = Inr pdfDoc'"
    and "PDFDocument_save L pdfDoc' = Inr mid"
    and "P12Signer_new L (certificate this) (passphrase this) = Inr p12Signer"
    and "SignPdf_sign L mid p12Signer = Inr signedPdfBytes"
  shows "snd (signPdfBuffer L this pdfBuffer opts) = Inr signedPdfBytes"
proof -
  from assms(3) have "pdflibAddPlaceholder L pdfDoc
      \<lparr>reason = orElse (getProp (case opts of None \<Rightarrow> [] | Some obj \<Rightarrow> obj) ''reason'')
                (JString ''Document signed by server''),
       location = orElse (getProp (case opts of None \<Rightarrow> [] | Some obj \<Rightarrow> obj) ''location'')
                (JString ''Server''),
       contactInfo = orElse (getProp (case opts of None \<Rightarrow> [] | Some obj \<Rightarrow> obj) ''contact'')
                (JString ''N/A''),
       name = JString ''PDF Signing Server'',
       signatureLength = 8192\<rparr> = Inr pdfDoc'"
    using assms(4) by (simp add: signPdfBuffer_placeholderCalls [OF assms(1,2)])
  with assms(1,2,5,6,7) show ?thesis
    by (simp add: signPdfBuffer_def Let_def)
qed


lemma samplePdf_valid: "isPdfValid samplePdf"
  by code_simp

lemma samplePdf_unsigned: "indexOf (ascii ''/ByteRange'') samplePdf = None"
  by code_simp



lemma sampleHead8192_parse: "parseByteRange sampleHead8192 = Some (0, 44, 8236, 6)"
  by code_simp

lemma sampleHead8192_length: "length sampleHead8192 = 44"
  by code_simp

lemma sampleIntermediate8192_prepared: "prepared 8192 sampleIntermediate8192"
proof -
  have "parseByteRange sampleIntermediate8192 = Some (0, 44, 8236, 6)"
    unfolding sampleIntermediate8192_def
    by (rule parseByteRange_append [OF sampleHead8192_parse])
  then show ?thesis
    by (simp add: prepared_def) (simp add: sampleIntermediate8192_def sampleHead8192_length ascii_def)
qed

lemma sample_placeholder:
  "\<lparr>reason = JString ''Document signed by server'', location = JString ''Server'',
    contactInfo = JString ''N/A'', name = JString ''PDF Signing Server'',
    signatureLength = 8192\<rparr>
   \<in> set (placeholderCalls (fst (signPdfBuffer echoLibs testSigner pdfMagic None)))"
proof -
  have l: "PDFDocument_load echoLibs pdfMagic = Inr pdfMagic"
    by (simp add: echoLibs_def)
  show ?thesis
    by (simp add: signPdfBuffer_placeholderCalls [OF isPdfValid_pdfMagic l] getProp_def
        orElse_def)
qed


end
